theory Spec2Isabelle
  imports Complex_Main "HOL-Library.Word"
begin

section \<open>Numbers\<close>

text \<open>
  The simulation core is TypeScript; every quantity is a JavaScript \<^verbatim>\<open>number\<close>, an
  IEEE 754 binary64 value. The embedding reads a \<^verbatim>\<open>number\<close> as a \<^typ>\<open>real\<close>. Where a
  property depends on rounding (the growth speed, particle generation, the scatter
  step, the sampling of the rose curve) every arithmetic operation of the source is
  followed by \<open>fl\<close>, the rounding to the nearest binary64 value, and a decimal literal
  such as \<^verbatim>\<open>0.3\<close> is \<open>fl 0.3\<close>. The other functions (colours, the converge step, the
  arrival test) use exact arithmetic; the arithmetic of the pitch estimator is exact
  in the source as well. A \<^typ>\<open>real\<close> cannot be \<^verbatim>\<open>Infinity\<close>: \<open>fl\<close> has no largest value.
  The rose curve tests for overflow (\<open>overflows\<close>) where a quotient or a product can
  exceed the binary64 range and yields the \<^verbatim>\<open>NaN\<close> that follows from it; the scatter
  step does not, and the statements about it bound their inputs by \<open>2 ^ 1000\<close>.
  Where the source can divide by zero (the mean of an empty particle list, the step of a
  curve with no segments) the value JavaScript produces there, \<^verbatim>\<open>NaN\<close>, is written into
  the model as \<^term>\<open>None\<close> and every comparison with it is false, as in JavaScript.
\<close>

text \<open>Rounding a real to the nearest integer, ties to the even one.\<close>

definition rne :: "real \<Rightarrow> int" where
  "rne x =
     (let f = \<lfloor>x\<rfloor>; r = x - of_int f
      in if r < 1 / 2 then f
         else if r > 1 / 2 then f + 1
         else if even f then f else f + 1)"

text \<open>
  The spacing of the binary64 values around \<open>x\<close>: \<open>2 ^ (k - 52)\<close> for
  \<open>2 ^ k \<le> |x| < 2 ^ (k + 1)\<close> (53 significant bits), and \<open>2 ^ -1074\<close> in the
  subnormal range.
\<close>

definition quantum :: "real \<Rightarrow> real" where
  "quantum x = 2 powi (max (\<lfloor>log 2 \<bar>x\<bar>\<rfloor> - 52) (- 1074))"

text \<open>Rounding to the nearest binary64 value, ties to even.\<close>

definition fl :: "real \<Rightarrow> real" where
  "fl x = (if x = 0 then 0 else of_int (rne (x / quantum x)) * quantum x)"

text \<open>
  The exact results that binary64 rounds to \<^verbatim>\<open>Infinity\<close> or \<^verbatim>\<open>-Infinity\<close>: those at or beyond
  the midpoint \<open>2 ^ 1024 - 2 ^ 970\<close> between the largest finite value
  \<open>2 ^ 1024 - 2 ^ 971\<close> and \<open>2 ^ 1024\<close>.
\<close>

definition overflows :: "real \<Rightarrow> bool" where
  "overflows x \<longleftrightarrow> 2 ^ 1024 - 2 ^ 970 \<le> \<bar>x\<bar>"

text \<open>\<^verbatim>\<open>Math.PI\<close>, the binary64 value nearest to \<open>\<pi>\<close>.\<close>

definition Math_PI :: real where
  "Math_PI = 884279719003555 / 2 ^ 48"

section \<open>The growth state machine (StateMachine.ts)\<close>

datatype GrowthState = SEED | SPROUT | STEM | BLOOM | SCATTER

definition SEED_TO_SPROUT_VOLUME :: real where
  "SEED_TO_SPROUT_VOLUME = 30"

definition BLOOM_TO_SCATTER_VOLUME :: real where
  "BLOOM_TO_SCATTER_VOLUME = 70"

definition SPROUT_TO_STEM_LENGTH :: real where
  "SPROUT_TO_STEM_LENGTH = 100"

definition STEM_TO_BLOOM_LENGTH :: real where
  "STEM_TO_BLOOM_LENGTH = 300"

record StateMachine =
  currentState :: GrowthState

definition StateMachine_new :: StateMachine where
  "StateMachine_new = \<lparr>currentState = SEED\<rparr>"

text \<open>\<^verbatim>\<open>update(volume, growthProgress)\<close>: one \<^verbatim>\<open>switch\<close> on the current state.\<close>

definition StateMachine_update :: "StateMachine \<Rightarrow> real \<Rightarrow> real \<Rightarrow> StateMachine" where
  "StateMachine_update sm volume growthProgress =
     (case currentState sm of
        SEED \<Rightarrow>
          (if volume \<ge> SEED_TO_SPROUT_VOLUME then sm\<lparr>currentState := SPROUT\<rparr> else sm)
      | SPROUT \<Rightarrow>
          (if growthProgress \<ge> SPROUT_TO_STEM_LENGTH then sm\<lparr>currentState := STEM\<rparr> else sm)
      | STEM \<Rightarrow>
          (if growthProgress \<ge> STEM_TO_BLOOM_LENGTH then sm\<lparr>currentState := BLOOM\<rparr> else sm)
      | BLOOM \<Rightarrow>
          (if volume \<ge> BLOOM_TO_SCATTER_VOLUME then sm\<lparr>currentState := SCATTER\<rparr> else sm)
      | SCATTER \<Rightarrow> sm)"

definition StateMachine_reset :: "StateMachine \<Rightarrow> StateMachine" where
  "StateMachine_reset sm = sm\<lparr>currentState := SEED\<rparr>"

text \<open>The position of a state in the declared order of the enum, to count steps.\<close>

fun stage :: "GrowthState \<Rightarrow> nat" where
  "stage SEED = 0"
| "stage SPROUT = 1"
| "stage STEM = 2"
| "stage BLOOM = 3"
| "stage SCATTER = 4"

section \<open>The growth parameter controller (GrowthController.ts)\<close>

record GrowthParameters =
  growthSpeed :: real
  swayAmount :: real
  colorHue :: real
  colorSaturation :: real
  colorLightness :: real

record GrowthController =
  basePitch :: real

definition GrowthController_new :: GrowthController where
  "GrowthController_new = \<lparr>basePitch = 300\<rparr>"

definition calculateGrowthSpeed :: "real \<Rightarrow> real" where
  "calculateGrowthSpeed volume =
     (let normalizedVolume = fl (volume / 100);
          easedVolume = fl (fl (normalizedVolume * normalizedVolume)
                            * fl (3 - fl (2 * normalizedVolume)))
      in fl (1 + fl (easedVolume * 2)))"

definition calculateSwayAmount :: "GrowthController \<Rightarrow> real \<Rightarrow> real" where
  "calculateSwayAmount gc pitch = (pitch - basePitch gc) / 100"

definition calculateColorHue :: "real \<Rightarrow> real" where
  "calculateColorHue pitch =
     (if pitch \<le> 200 then 120
      else if pitch \<ge> 400 then 180
      else 120 + ((pitch - 200) / 200) * 60)"

definition calculateColorSaturation :: "real \<Rightarrow> real" where
  "calculateColorSaturation pitch =
     (if pitch \<le> 200 then 50
      else if pitch \<ge> 400 then 80
      else 50 + ((pitch - 200) / 200) * 30)"

definition calculateColorLightness :: "real \<Rightarrow> real" where
  "calculateColorLightness pitch =
     (let lightness = 30 + pitch / 10 in max 30 (min 70 lightness))"

definition GrowthController_update ::
  "GrowthController \<Rightarrow> real \<Rightarrow> real \<Rightarrow> real \<Rightarrow> GrowthParameters" where
  "GrowthController_update gc volume pitch deltaTime =
     \<lparr>growthSpeed = calculateGrowthSpeed volume,
      swayAmount = calculateSwayAmount gc pitch,
      colorHue = calculateColorHue pitch,
      colorSaturation = calculateColorSaturation pitch,
      colorLightness = calculateColorLightness pitch\<rparr>"

definition setBasePitch :: "GrowthController \<Rightarrow> real \<Rightarrow> GrowthController" where
  "setBasePitch gc pitch = gc\<lparr>basePitch := pitch\<rparr>"

definition getBasePitch :: "GrowthController \<Rightarrow> real" where
  "getBasePitch gc = basePitch gc"

section \<open>The particle system (ParticleSystem.ts)\<close>

text \<open>
  Record fields carry a prefix (\<open>p_\<close> for a particle, \<open>point_\<close>, \<open>fp_\<close>, \<open>leaf_\<close>), since
  a field named \<open>x\<close> would capture every variable of that name. Of the \<^verbatim>\<open>Leaf\<close>
  interface the record keeps the five fields that the particle system reads; of the
  optional fields of \<^verbatim>\<open>Particle\<close> it keeps the two that the particle system writes.
\<close>

record Point =
  point_x :: real
  point_y :: real

record FlowerPoint =
  fp_x :: real
  fp_y :: real
  fp_color :: string

record Leaf =
  leaf_x :: real
  leaf_y :: real
  leaf_angle :: real
  leaf_size :: real
  leaf_baseColor :: string

datatype PartType = flower | stem | leaf

record Particle =
  p_x :: real
  p_y :: real
  p_vx :: real
  p_vy :: real
  p_color :: string
  p_alpha :: real
  p_size :: real
  p_targetX :: real
  p_targetY :: real
  p_life :: real
  p_maxLife :: real
  p_birthTime :: real
  p_partType :: "PartType option"
  p_partIndex :: "nat option"

datatype Phase = scatter | converge

record ParticleSystem =
  particles :: "Particle list"
  phase :: Phase
  seedPosition :: Point

definition gravity :: real where
  "gravity = 0.5"

definition alphaDecayRate :: real where
  "alphaDecayRate = fl 0.3"

definition alphaThreshold :: real where
  "alphaThreshold = fl 0.3"

definition convergenceSpeed :: real where
  "convergenceSpeed = 4.0"

definition arrivalThreshold :: real where
  "arrivalThreshold = 5"

definition ParticleSystem_new :: "Point \<Rightarrow> ParticleSystem" where
  "ParticleSystem_new seed = \<lparr>particles = [], phase = scatter, seedPosition = seed\<rparr>"

text \<open>
  The functions of \<^verbatim>\<open>Math\<close> that the particle system and the rose curve call are
  parameters of the model. \<open>Math_random m k\<close> is the value of the \<open>k\<close>-th call of
  \<^verbatim>\<open>Math.random()\<close> (counted from 0) made during one \<^verbatim>\<open>generateParticles\<close>; each
  particle makes four calls, in this order: angle, speed, size, maxLife.
  \<^verbatim>\<open>Math.cos\<close> and \<^verbatim>\<open>Math.sin\<close> are approximations whose precision the language
  leaves to the implementation, so nothing is assumed of them.
\<close>

record MathLib =
  Math_random :: "nat \<Rightarrow> real"
  Math_cos :: "real \<Rightarrow> real"
  Math_sin :: "real \<Rightarrow> real"

text \<open>A library for examples: every random draw is 0, cosine and sine are exact.\<close>

definition Math0 :: MathLib where
  "Math0 = \<lparr>Math_random = (\<lambda>k. 0), Math_cos = cos, Math_sin = sin\<rparr>"

text \<open>
  The three loops of \<^verbatim>\<open>generateParticles\<close> build their particle by the same
  statements; \<open>spawn\<close> is that common body, given the index \<open>n\<close> of its first random
  draw and the position, colour and part that differ between the loops.
\<close>

definition spawn ::
  "MathLib \<Rightarrow> nat \<Rightarrow> real \<Rightarrow> real \<Rightarrow> Point \<Rightarrow> real \<Rightarrow> real \<Rightarrow> real \<Rightarrow> string
     \<Rightarrow> PartType \<Rightarrow> nat option \<Rightarrow> Particle" where
  "spawn m n baseSpeed verticalBias seed currentTime x0 y0 col part idx =
     (let angle = fl (fl (Math_random m n * Math_PI) * 2);
          speed = fl (baseSpeed * fl (fl 0.8 + fl (Math_random m (n + 1) * fl 0.4)));
          vx = fl (Math_cos m angle * speed);
          vy = fl (fl (Math_sin m angle * speed) + fl (fl (verticalBias * speed) * 0.5))
      in \<lparr>p_x = x0, p_y = y0, p_vx = vx, p_vy = vy, p_color = col, p_alpha = 1.0,
          p_size = fl (2 + fl (Math_random m (n + 2) * 2)),
          p_targetX = point_x seed, p_targetY = point_y seed,
          p_life = 1.0, p_maxLife = fl (3 + fl (Math_random m (n + 3) * 2)),
          p_birthTime = currentTime, p_partType = Some part, p_partIndex = idx\<rparr>)"

definition stemSegments :: nat where
  "stemSegments = 10"

definition leafPoints :: nat where
  "leafPoints = 5"

text \<open>
  The three loops, in the order of the source: one particle for each flower point,
  eleven along the stem (\<open>i = 0, \<dots>, stemSegments\<close>), five for each leaf. \<open>n0\<close> is
  the number of random draws made before the loop starts.
\<close>

definition flowerParticles ::
  "MathLib \<Rightarrow> real \<Rightarrow> real \<Rightarrow> Point \<Rightarrow> real \<Rightarrow> FlowerPoint list \<Rightarrow> Particle list" where
  "flowerParticles m baseSpeed verticalBias seed currentTime flowerPoints =
     map (\<lambda>(j, point).
           spawn m (4 * j) baseSpeed verticalBias seed currentTime
             (fp_x point) (fp_y point) (fp_color point) flower None)
       (enumerate 0 flowerPoints)"

definition stemParticles ::
  "MathLib \<Rightarrow> nat \<Rightarrow> real \<Rightarrow> real \<Rightarrow> Point \<Rightarrow> real \<Rightarrow> real \<Rightarrow> Particle list" where
  "stemParticles m n0 baseSpeed verticalBias seed currentTime stemHeight =
     map (\<lambda>i.
           let t = fl (real i / real stemSegments);
               y = fl (point_y seed - fl (stemHeight * t))
           in spawn m (n0 + 4 * i) baseSpeed verticalBias seed currentTime
                (point_x seed) y ''rgb(70, 200, 160)'' stem None)
       [0 ..< stemSegments + 1]"

definition leafParticles ::
  "MathLib \<Rightarrow> nat \<Rightarrow> real \<Rightarrow> real \<Rightarrow> Point \<Rightarrow> real \<Rightarrow> Leaf list \<Rightarrow> Particle list" where
  "leafParticles m n0 baseSpeed verticalBias seed currentTime leaves =
     concat (map (\<lambda>(leafIndex, lf).
           map (\<lambda>i.
                 let t = fl (real i / real (leafPoints - 1));
                     x = fl (leaf_x lf + fl (fl (Math_cos m (leaf_angle lf) * leaf_size lf) * t));
                     y = fl (leaf_y lf + fl (fl (Math_sin m (leaf_angle lf) * leaf_size lf) * t))
                 in spawn m (n0 + 4 * (leafPoints * leafIndex + i))
                      baseSpeed verticalBias seed currentTime
                      x y (leaf_baseColor lf) leaf (Some leafIndex))
             [0 ..< leafPoints])
       (enumerate 0 leaves))"

definition generateParticles ::
  "ParticleSystem \<Rightarrow> MathLib \<Rightarrow> real \<Rightarrow> Leaf list \<Rightarrow> FlowerPoint list \<Rightarrow> real \<Rightarrow> real \<Rightarrow> real
     \<Rightarrow> ParticleSystem" where
  "generateParticles s m stemHeight leaves flowerPoints volume pitch currentTime =
     (let seed = seedPosition s;
          baseSpeed = fl (1 + fl (fl (volume / 100) * 4));
          normalizedPitch = max 0 (min 1 (fl (fl (pitch - 200) / 600)));
          verticalBias = fl (fl (normalizedPitch - 0.5) * 2);
          n1 = 4 * length flowerPoints;
          n2 = n1 + 4 * (stemSegments + 1)
      in s\<lparr>particles :=
             flowerParticles m baseSpeed verticalBias seed currentTime flowerPoints
             @ stemParticles m n1 baseSpeed verticalBias seed currentTime stemHeight
             @ leafParticles m n2 baseSpeed verticalBias seed currentTime leaves,
           phase := scatter\<rparr>)"

text \<open>The body of the loop of \<^verbatim>\<open>updateScatterPhase\<close>; the new \<open>vy\<close> moves \<open>y\<close>.\<close>

definition scatterParticle :: "real \<Rightarrow> Particle \<Rightarrow> Particle" where
  "scatterParticle deltaTime p =
     (let vy = fl (p_vy p + fl (fl (gravity * deltaTime) * 60));
          x = fl (p_x p + fl (fl (p_vx p * deltaTime) * 60));
          y = fl (p_y p + fl (fl (vy * deltaTime) * 60));
          alpha = max 0 (fl (p_alpha p - fl (alphaDecayRate * deltaTime)));
          life = max 0 (fl (p_life p - fl (deltaTime / p_maxLife p)))
      in p\<lparr>p_vy := vy, p_x := x, p_y := y, p_alpha := alpha, p_life := life\<rparr>)"

text \<open>
  The mean alpha. \<^verbatim>\<open>reduce\<close> over an empty array returns its initial value 0 and
  \<^verbatim>\<open>0 / 0\<close> is \<^verbatim>\<open>NaN\<close>: \<open>None\<close> here.
\<close>

definition avgAlpha :: "Particle list \<Rightarrow> real option" where
  "avgAlpha ps =
     (if length ps = 0 then None
      else Some (fl (foldl (\<lambda>sum p. fl (sum + p_alpha p)) 0 ps / real (length ps))))"

definition updateScatterPhase :: "ParticleSystem \<Rightarrow> real \<Rightarrow> ParticleSystem" where
  "updateScatterPhase s deltaTime =
     (let ps = map (scatterParticle deltaTime) (particles s);
          s1 = s\<lparr>particles := ps\<rparr>
      in case avgAlpha ps of
           None \<Rightarrow> s1
         | Some a \<Rightarrow> if a < alphaThreshold then s1\<lparr>phase := converge\<rparr> else s1)"

text \<open>The body of the loop of \<^verbatim>\<open>updateConvergePhase\<close>.\<close>

definition convergeParticle :: "real \<Rightarrow> Particle \<Rightarrow> Particle" where
  "convergeParticle deltaTime p =
     (let dx = p_targetX p - p_x p;
          dy = p_targetY p - p_y p;
          distance = sqrt (dx * dx + dy * dy);
          p1 = (if distance > arrivalThreshold then
                  let distanceRatio = min (distance / 300) 1;
                      easing = 1 - (1 - distanceRatio) ^ 3;
                      speedMultiplier = 1 + (easing * 3);
                      speed = convergenceSpeed * speedMultiplier;
                      dirX = dx / distance;
                      dirY = dy / distance;
                      moveDistance = min (speed * deltaTime * 60) distance
                  in p\<lparr>p_x := p_x p + dirX * moveDistance,
                       p_y := p_y p + dirY * moveDistance,
                       p_vx := dirX * speed * 60,
                       p_vy := dirY * speed * 60\<rparr>
                else p\<lparr>p_vx := 0, p_vy := 0\<rparr>);
          distanceToSeed = sqrt (dx * dx + dy * dy);
          proximityRatio = max 0 (1 - distanceToSeed / 200);
          alpha = p_alpha p1 + 0.3 * deltaTime * proximityRatio
      in p1\<lparr>p_alpha := min 1 alpha\<rparr>)"

definition updateConvergePhase :: "ParticleSystem \<Rightarrow> real \<Rightarrow> ParticleSystem" where
  "updateConvergePhase s deltaTime =
     s\<lparr>particles := map (convergeParticle deltaTime) (particles s)\<rparr>"

definition ParticleSystem_update :: "ParticleSystem \<Rightarrow> real \<Rightarrow> real \<Rightarrow> ParticleSystem" where
  "ParticleSystem_update s deltaTime currentTime =
     (if phase s = scatter then updateScatterPhase s deltaTime
      else updateConvergePhase s deltaTime)"

text \<open>The loop of \<^verbatim>\<open>allParticlesArrived\<close>, with its early return.\<close>

fun arrivedLoop :: "Particle list \<Rightarrow> bool" where
  "arrivedLoop [] = True"
| "arrivedLoop (p # ps) =
     (let dx = p_targetX p - p_x p;
          dy = p_targetY p - p_y p;
          distance = sqrt (dx * dx + dy * dy)
      in if distance > arrivalThreshold then False else arrivedLoop ps)"

definition allParticlesArrived :: "ParticleSystem \<Rightarrow> bool" where
  "allParticlesArrived s = (if phase s \<noteq> converge then False else arrivedLoop (particles s))"

definition getParticles :: "ParticleSystem \<Rightarrow> Particle list" where
  "getParticles s = particles s"

definition getPhase :: "ParticleSystem \<Rightarrow> Phase" where
  "getPhase s = phase s"

definition ParticleSystem_reset :: "ParticleSystem \<Rightarrow> ParticleSystem" where
  "ParticleSystem_reset s = s\<lparr>particles := [], phase := scatter\<rparr>"

text \<open>
  The states a particle system can be in: built by the constructor and changed by its
  public methods only, with \<^verbatim>\<open>Math.random()\<close> returning values in \<open>[0, 1)\<close>.
\<close>

inductive reachable :: "ParticleSystem \<Rightarrow> bool" where
  reachable_new: "reachable (ParticleSystem_new seed)"
| reachable_generate:
    "reachable s \<Longrightarrow> (\<And>k. 0 \<le> Math_random m k \<and> Math_random m k < 1) \<Longrightarrow>
     reachable (generateParticles s m stemHeight leaves flowerPoints volume pitch currentTime)"
| reachable_update: "reachable s \<Longrightarrow> reachable (ParticleSystem_update s deltaTime currentTime)"
| reachable_reset: "reachable s \<Longrightarrow> reachable (ParticleSystem_reset s)"

text \<open>The distance of a particle to its stored target.\<close>

definition distanceToTarget :: "Particle \<Rightarrow> real" where
  "distanceToTarget p =
     sqrt ((p_targetX p - p_x p) * (p_targetX p - p_x p)
         + (p_targetY p - p_y p) * (p_targetY p - p_y p))"


section \<open>The rose curve (RoseCurve.ts)\<close>







definition calculateRadius :: "MathLib \<Rightarrow> real \<Rightarrow> real \<Rightarrow> real \<Rightarrow> real option" where
  "calculateRadius m theta a k =
     (if overflows (k * theta) then None
      else let r = fl (a * Math_cos m (fl (k * theta))) in Some \<bar>r\<bar>)"

section \<open>The pitch estimator (AudioAnalyzer.ts)\<close>

text \<open>
  \<^verbatim>\<open>autoCorrelate(buffer, sampleRate)\<close>. The buffer is a \<^verbatim>\<open>Uint8Array\<close>; a normalized
  sample \<open>(b - 128) / 128\<close> is a multiple of \<open>1 / 128\<close> and is stored in the
  \<^verbatim>\<open>Float32Array\<close> without rounding; the sum of the absolute values is a multiple of
  \<open>1 / 128\<close> as well and is exact. A correlation is a multiple of \<open>1 / 16384\<close> of absolute
  value at most the buffer length; the model keeps it exact, as the \<^verbatim>\<open>Float32Array\<close> of
  the source does for buffers of up to 1024 samples, the size the analyser uses. The
  three divisions by 1000, by 80 and by the best lag are rounded.
\<close>

definition normalizeBuffer :: "8 word list \<Rightarrow> real list" where
  "normalizeBuffer buffer = map (\<lambda>b. (real (unat b) - 128) / 128) buffer"

definition sumAbs :: "real list \<Rightarrow> real" where
  "sumAbs normalized = foldl (\<lambda>sum v. sum + \<bar>v\<bar>) 0 normalized"

definition correlationAt :: "real list \<Rightarrow> nat \<Rightarrow> real" where
  "correlationAt normalized lag =
     foldl (\<lambda>correlation i. correlation + normalized ! i * normalized ! (i + lag)) 0
       [0 ..< length normalized - lag]"

definition correlations :: "real list \<Rightarrow> real list" where
  "correlations normalized = map (correlationAt normalized) [0 ..< length normalized]"

text \<open>
  One round of the search loop; the state is \<open>(maxCorrelation, bestLag, foundPeak)\<close>
  and, as its last component, the list of the lags the loop has looked at so far. The
  source has no such list: it is a record of the run, kept to state which lags a call
  searches. The loop bound keeps \<open>lag\<close> below the length; a negative \<open>lag\<close> (negative
  sample rate) reads \<^verbatim>\<open>undefined\<close>, and the comparison is then false.
\<close>

definition searchStep ::
  "real list \<Rightarrow> int \<Rightarrow> real \<times> int \<times> bool \<times> int list \<Rightarrow> real \<times> int \<times> bool \<times> int list" where
  "searchStep cs lag st =
     (case st of (maxCorrelation, bestLag, foundPeak, searched) \<Rightarrow>
        if 0 \<le> lag \<and> cs ! nat lag > maxCorrelation then (cs ! nat lag, lag, True, searched @ [lag])
        else (maxCorrelation, bestLag, foundPeak, searched @ [lag]))"

text \<open>
  A run of \<^verbatim>\<open>autoCorrelate\<close>: the number it returns, the correlation array if the run
  has computed it, and the lags its search loop has looked at.
\<close>

record PitchRun =
  run_result :: real
  run_correlations :: "real list option"
  run_searched :: "int list"

definition autoCorrelateRun :: "8 word list \<Rightarrow> real \<Rightarrow> PitchRun" where
  "autoCorrelateRun buffer sampleRate =
     (let normalized = normalizeBuffer buffer;
          sum = sumAbs normalized
      in if sum < 0.01 then \<lparr>run_result = 0, run_correlations = None, run_searched = []\<rparr>
         else
           let cs = correlations normalized;
               minLag = \<lfloor>fl (sampleRate / 1000)\<rfloor>;
               maxLag = \<lfloor>fl (sampleRate / 80)\<rfloor>;
               (maxCorrelation, bestLag, foundPeak, searched) =
                 fold (searchStep cs) [minLag .. min maxLag (int (length cs)) - 1] (0, 0, False, [])
           in \<lparr>run_result =
                 (if \<not> foundPeak \<or> bestLag = 0 then 0 else fl (sampleRate / of_int bestLag)),
               run_correlations = Some cs, run_searched = searched\<rparr>)"

definition autoCorrelate :: "8 word list \<Rightarrow> real \<Rightarrow> real" where
  "autoCorrelate buffer sampleRate = run_result (autoCorrelateRun buffer sampleRate)"

text \<open>
  The mean absolute normalized amplitude of a buffer, in the words of the
  specification (the source never computes it).
\<close>

definition meanAbsAmplitude :: "8 word list \<Rightarrow> real" where
  "meanAbsAmplitude buffer = sum_list (map abs (normalizeBuffer buffer)) / real (length buffer)"

section \<open>Properties of rounding\<close>

lemma rne_of_int [simp]: "rne (of_int n) = n"
  by (simp add: rne_def)

lemma rne_cases:
  "rne x = \<lfloor>x\<rfloor> \<or> rne x = \<lfloor>x\<rfloor> + 1"
  by (simp add: rne_def Let_def)

lemma rne_error: "\<bar>of_int (rne x) - x\<bar> \<le> 1 / 2"
proof -
  have "of_int \<lfloor>x\<rfloor> \<le> x" "x < of_int \<lfloor>x\<rfloor> + 1" by linarith+
  then show ?thesis by (auto simp: rne_def Let_def)
qed

lemma rne_mono:
  assumes "x \<le> y"
  shows "rne x \<le> rne y"
proof (cases "\<lfloor>x\<rfloor> = \<lfloor>y\<rfloor>")
  case True
  with assms show ?thesis by (auto simp: rne_def Let_def)
next
  case False
  with assms have "\<lfloor>x\<rfloor> < \<lfloor>y\<rfloor>" using floor_mono [of x y] by linarith
  moreover have "rne x \<le> \<lfloor>x\<rfloor> + 1" using rne_cases [of x] by auto
  moreover have "\<lfloor>y\<rfloor> \<le> rne y" using rne_cases [of y] by auto
  ultimately show ?thesis by linarith
qed

lemma rne_minus: "rne (- x) = - rne x"
proof (cases "x = of_int \<lfloor>x\<rfloor>")
  case True
  then obtain n :: int where "x = of_int n" by blast
  then have "rne (- x) = rne (of_int (- n))" by simp
  also have "\<dots> = - n" by (rule rne_of_int)
  finally show ?thesis using \<open>x = of_int n\<close> by simp
next
  case False
  then have lt: "of_int \<lfloor>x\<rfloor> < x" "x < of_int \<lfloor>x\<rfloor> + 1" by linarith+
  then have f: "\<lfloor>- x\<rfloor> = - \<lfloor>x\<rfloor> - 1" by linarith
  show ?thesis
    unfolding rne_def Let_def f using lt by (auto simp: algebra_simps)
qed

lemma rne_ge_int: "of_int n \<le> x \<Longrightarrow> n \<le> rne x"
  using rne_mono [of "of_int n" x] by simp

lemma rne_le_int: "x \<le> of_int n \<Longrightarrow> rne x \<le> n"
  using rne_mono [of x "of_int n"] by simp


lemma pow2_add: "(2::real) powi (a + b) = 2 powi a * 2 powi b"
  by (simp add: power_int_add)

lemma pow2_diff: "(2::real) powi (a - b) = 2 powi a / 2 powi b"
  by (simp add: power_int_diff)

lemma pow2_less_iff: "(2::real) powi a < 2 powi b \<longleftrightarrow> a < b"
proof
  assume "(2::real) powi a < 2 powi b"
  show "a < b"
  proof (rule ccontr)
    assume "\<not> a < b"
    then have "b \<le> a" by simp
    then have "(2::real) powi b \<le> 2 powi a" by (intro power_int_increasing) simp_all
    with \<open>(2::real) powi a < 2 powi b\<close> show False by simp
  qed
next
  assume "a < b"
  then show "(2::real) powi a < 2 powi b" by (intro power_int_strict_increasing) simp_all
qed

lemma pow2_le_iff: "(2::real) powi a \<le> 2 powi b \<longleftrightarrow> a \<le> b"
  using pow2_less_iff [of b a] by (simp add: not_less [symmetric])

lemma binade:
  assumes "x \<noteq> 0"
  shows "2 powi \<lfloor>log 2 \<bar>x\<bar>\<rfloor> \<le> \<bar>x\<bar>" "\<bar>x\<bar> < 2 powi (\<lfloor>log 2 \<bar>x\<bar>\<rfloor> + 1)"
proof -
  have pos: "0 < \<bar>x\<bar>" using assms by simp
  define k where "k = \<lfloor>log 2 \<bar>x\<bar>\<rfloor>"
  have "2 powr (of_int k) \<le> \<bar>x\<bar> \<and> \<bar>x\<bar> < 2 powr (of_int k + 1)"
    using floor_log_eq_powr_iff [OF pos, of 2 k] by (simp add: k_def)
  moreover have "2 powr (of_int k) = (2::real) powi k"
    by (rule powr_real_of_int') simp_all
  moreover have "2 powr (of_int k + 1) = (2::real) powi (k + 1)"
    using powr_real_of_int' [of 2 "k + 1"] by simp
  ultimately show "2 powi \<lfloor>log 2 \<bar>x\<bar>\<rfloor> \<le> \<bar>x\<bar>" "\<bar>x\<bar> < 2 powi (\<lfloor>log 2 \<bar>x\<bar>\<rfloor> + 1)"
    by (simp_all add: k_def)
qed

lemma floor_log_unique:
  assumes "2 powi k \<le> \<bar>x\<bar>" "\<bar>x\<bar> < 2 powi (k + 1)"
  shows "\<lfloor>log 2 \<bar>x\<bar>\<rfloor> = k"
proof -
  have "0 < (2::real) powi k" by simp
  with assms(1) have pos: "0 < \<bar>x\<bar>" by linarith
  have "2 powr (of_int k) = (2::real) powi k"
    by (rule powr_real_of_int') simp_all
  moreover have "2 powr (of_int k + 1) = (2::real) powi (k + 1)"
    using powr_real_of_int' [of 2 "k + 1"] by simp
  ultimately show ?thesis
    using floor_log_eq_powr_iff [OF pos, of 2 k] assms by simp
qed

lemma quantum_eq:
  assumes "2 powi k \<le> \<bar>x\<bar>" "\<bar>x\<bar> < 2 powi (k + 1)"
  shows "quantum x = 2 powi (max (k - 52) (- 1074))"
  by (simp add: quantum_def floor_log_unique [OF assms])

lemma quantum_pos [simp]: "0 < quantum x"
  by (simp add: quantum_def)

lemma quantum_neq0 [simp]: "quantum x \<noteq> 0"
  by (simp add: quantum_def)

lemma quantum_nonneg [simp]: "0 \<le> quantum x"
  by (simp add: quantum_def)

lemma quantum_minus [simp]: "quantum (- x) = quantum x"
  by (simp add: quantum_def)

lemma fl_0 [simp]: "fl 0 = 0"
  by (simp add: fl_def)

lemma fl_minus: "fl (- x) = - fl x"
  by (simp add: fl_def rne_minus)

lemma fl_le_grid:
  assumes "x \<le> of_int m * quantum x"
  shows "fl x \<le> of_int m * quantum x"
proof (cases "x = 0")
  case True
  with assms show ?thesis by simp
next
  case False
  have "x / quantum x \<le> of_int m" using assms by (simp add: field_simps)
  then have "rne (x / quantum x) \<le> m" by (rule rne_le_int)
  then have "of_int (rne (x / quantum x)) * quantum x \<le> of_int m * quantum x"
    by (intro mult_right_mono) simp_all
  with False show ?thesis by (simp add: fl_def)
qed

lemma fl_ge_grid:
  assumes "of_int m * quantum x \<le> x"
  shows "of_int m * quantum x \<le> fl x"
proof (cases "x = 0")
  case True
  with assms show ?thesis by simp
next
  case False
  have "of_int m \<le> x / quantum x" using assms by (simp add: field_simps)
  then have "m \<le> rne (x / quantum x)" by (rule rne_ge_int)
  then have "of_int m * quantum x \<le> of_int (rne (x / quantum x)) * quantum x"
    by (intro mult_right_mono) simp_all
  with False show ?thesis by (simp add: fl_def)
qed

lemma fl_error: "\<bar>fl x - x\<bar> \<le> quantum x / 2"
proof (cases "x = 0")
  case True
  then show ?thesis by simp
next
  case False
  have "fl x - x = (of_int (rne (x / quantum x)) - x / quantum x) * quantum x"
    using False by (simp add: fl_def left_diff_distrib)
  then have "\<bar>fl x - x\<bar> = \<bar>of_int (rne (x / quantum x)) - x / quantum x\<bar> * quantum x"
    by (simp only: abs_mult) simp
  also have "\<dots> \<le> 1 / 2 * quantum x"
    by (intro mult_right_mono rne_error) simp
  finally show ?thesis by simp
qed


lemma fl_exact_lt:
  assumes x: "x = of_int n * 2 powi j" and n: "\<bar>n\<bar> < 2 ^ 53" and j: "- 1074 \<le> j"
  shows "fl x = x"
proof (cases "x = 0")
  case True
  then show ?thesis by simp
next
  case False
  define k where "k = \<lfloor>log 2 \<bar>x\<bar>\<rfloor>"
  define e where "e = max (k - 52) (- 1074)"
  have q: "quantum x = 2 powi e" by (simp add: quantum_def k_def e_def)
  have "\<bar>x\<bar> = of_int \<bar>n\<bar> * 2 powi j" by (simp add: x abs_mult)
  also have "\<dots> < 2 ^ 53 * 2 powi j"
  proof -
    have "real_of_int \<bar>n\<bar> < real_of_int (2 ^ 53)" using n by (simp only: of_int_less_iff)
    then show ?thesis by (intro mult_strict_right_mono) simp_all
  qed
  also have "\<dots> = 2 powi (53 + j)" by (simp add: power_int_add)
  finally have "2 powi k < (2::real) powi (53 + j)"
    using binade(1) [OF False] by (simp add: k_def)
  then have "k < 53 + j" by (simp only: pow2_less_iff)
  with j have ej: "e \<le> j" by (simp add: e_def)
  have "x / 2 powi e = of_int n * 2 powi (j - e)"
    by (simp add: x power_int_diff)
  also have "\<dots> = of_int (n * 2 ^ nat (j - e))"
    using ej by (simp add: power_int_nonneg_exp)
  finally have "rne (x / 2 powi e) = n * 2 ^ nat (j - e)" by (simp only: rne_of_int)
  then have "fl x = of_int (n * 2 ^ nat (j - e)) * 2 powi e"
    using False by (simp add: fl_def q)
  also have "\<dots> = of_int n * (2 powi (j - e) * 2 powi e)"
    using ej by (simp add: power_int_nonneg_exp)
  also have "\<dots> = x" by (simp add: x power_int_diff)
  finally show ?thesis .
qed


lemma fl_exact:
  assumes x: "x = of_int n * 2 powi j" and n: "\<bar>n\<bar> \<le> 2 ^ 53" and j: "- 1074 \<le> j"
  shows "fl x = x"
proof (cases "\<bar>n\<bar> < 2 ^ 53")
  case True
  then show ?thesis by (rule fl_exact_lt [OF x _ j])
next
  case False
  with n have "\<bar>n\<bar> = 2 ^ 53" by simp
  then have "n = 2 ^ 53 \<or> n = - (2 ^ 53)" by (auto simp: abs_if split: if_splits)
  then have n2: "n = 2 * (n div 2)" "\<bar>n div 2\<bar> < 2 ^ 53" by auto
  have "real_of_int n = real_of_int (n div 2) * 2"
    using arg_cong [OF n2(1), of real_of_int] by simp
  then have "x = of_int (n div 2) * 2 powi (j + 1)"
    by (simp add: x power_int_add)
  then show ?thesis using n2(2) j by (intro fl_exact_lt [of x "n div 2" "j + 1"]) simp_all
qed

lemma fl_of_int: "\<bar>n\<bar> \<le> 2 ^ 53 \<Longrightarrow> fl (of_int n) = of_int n"
  using fl_exact [of "of_int n" n 0] by simp

lemma rne_bound:
  assumes "\<bar>x\<bar> \<le> of_int m"
  shows "\<bar>rne x\<bar> \<le> m"
proof -
  have "x \<le> of_int m" "of_int (- m) \<le> x" using assms by simp_all
  then have "rne x \<le> m" "- m \<le> rne x" using rne_le_int rne_ge_int by blast+
  then show ?thesis by simp
qed

lemma fl_grid:
  assumes "x \<noteq> 0"
  shows "\<exists>n j. fl x = of_int n * 2 powi j \<and> \<bar>n\<bar> \<le> 2 ^ 53 \<and> - 1074 \<le> j"
proof -
  define k where "k = \<lfloor>log 2 \<bar>x\<bar>\<rfloor>"
  define e where "e = max (k - 52) (- 1074)"
  have q: "quantum x = 2 powi e" by (simp add: quantum_def k_def e_def)
  have "\<bar>x / 2 powi e\<bar> = \<bar>x\<bar> / 2 powi e" by simp
  also have "\<dots> \<le> 2 powi (k + 1) / 2 powi e"
    using binade(2) [OF assms] by (intro divide_right_mono) (simp_all add: k_def)
  also have "\<dots> = 2 powi (k + 1 - e)" by (simp add: power_int_diff)
  also have "\<dots> \<le> 2 powi 53" by (simp only: pow2_le_iff) (simp add: e_def)
  finally have "\<bar>x / 2 powi e\<bar> \<le> of_int (2 ^ 53)" by simp
  then have "\<bar>rne (x / 2 powi e)\<bar> \<le> 2 ^ 53" by (rule rne_bound)
  moreover have "fl x = of_int (rne (x / 2 powi e)) * 2 powi e"
    using assms by (simp add: fl_def q)
  moreover have "- 1074 \<le> e" by (simp add: e_def)
  ultimately show ?thesis by blast
qed

lemma fl_idem [simp]: "fl (fl x) = fl x"
proof (cases "x = 0")
  case True
  then show ?thesis by simp
next
  case False
  from fl_grid [OF False] obtain n j
    where "fl x = of_int n * 2 powi j" "\<bar>n\<bar> \<le> 2 ^ 53" "- 1074 \<le> j" by blast
  then show ?thesis by (rule fl_exact)
qed

lemma fl_mono_pos:
  assumes "0 < x" "x \<le> y"
  shows "fl x \<le> fl y"
proof -
  define kx where "kx = \<lfloor>log 2 \<bar>x\<bar>\<rfloor>"
  define ky where "ky = \<lfloor>log 2 \<bar>y\<bar>\<rfloor>"
  define ex where "ex = max (kx - 52) (- 1074)"
  define ey where "ey = max (ky - 52) (- 1074)"
  have x0: "x \<noteq> 0" and y0: "y \<noteq> 0" using assms by simp_all
  have qx: "quantum x = 2 powi ex" by (simp add: quantum_def kx_def ex_def)
  have qy: "quantum y = 2 powi ey" by (simp add: quantum_def ky_def ey_def)
  have bx: "2 powi kx \<le> x" "x < 2 powi (kx + 1)"
    using binade [OF x0] assms by (simp_all add: kx_def)
  have "by": "2 powi ky \<le> y" "y < 2 powi (ky + 1)"
    using binade [OF y0] assms by (simp_all add: ky_def)
  have "(2::real) powi kx < 2 powi (ky + 1)" using bx(1) assms(2) "by"(2) by linarith
  then have "kx < ky + 1" by (simp only: pow2_less_iff)
  then have k: "kx \<le> ky" by simp
  show ?thesis
  proof (cases "ex = ey")
    case True
    have "x / 2 powi ex \<le> y / 2 powi ex" using assms(2) by (intro divide_right_mono) simp_all
    then have "rne (x / 2 powi ex) \<le> rne (y / 2 powi ex)" by (rule rne_mono)
    then have "of_int (rne (x / 2 powi ex)) * 2 powi ex \<le> of_int (rne (y / 2 powi ex)) * (2::real) powi ex"
      by (intro mult_right_mono) simp_all
    then show ?thesis using x0 y0 by (simp add: fl_def qx qy True)
  next
    case False
    with k have lt: "ex < ey" unfolding ex_def ey_def by linarith
    then have ey: "ey = ky - 52" and kk: "kx < ky" unfolding ex_def ey_def by linarith+
    have ge: "0 \<le> ky - ex" using lt ey by simp
    have "of_int (2 ^ nat (ky - ex)) * quantum x = 2 powi (ky - ex) * 2 powi ex"
      using ge by (simp add: qx power_int_nonneg_exp)
    also have "\<dots> = 2 powi ky" by (simp add: power_int_diff)
    finally have gx: "of_int (2 ^ nat (ky - ex)) * quantum x = 2 powi ky" .
    have "kx + 1 \<le> ky" using kk by simp
    then have "(2::real) powi (kx + 1) \<le> 2 powi ky" by (simp only: pow2_le_iff)
    with bx(2) have "x \<le> 2 powi ky" by linarith
    then have "x \<le> of_int (2 ^ nat (ky - ex)) * quantum x" by (simp only: gx)
    then have 1: "fl x \<le> 2 powi ky" unfolding gx [symmetric] by (rule fl_le_grid)
    have "of_int (2 ^ 52) * quantum y = 2 powi 52 * 2 powi (ky - 52)" by (simp add: qy ey)
    also have "\<dots> = 2 powi ky" using pow2_add [of 52 "ky - 52"] by simp
    finally have gy: "of_int (2 ^ 52) * quantum y = 2 powi ky" .
    have "of_int (2 ^ 52) * quantum y \<le> y" using "by"(1) by (simp only: gy)
    then have 2: "2 powi ky \<le> fl y" unfolding gy [symmetric] by (rule fl_ge_grid)
    from 1 2 show ?thesis by linarith
  qed
qed

lemma fl_nonneg: "0 \<le> x \<Longrightarrow> 0 \<le> fl x"
  using fl_ge_grid [of 0 x] by simp

lemma fl_nonpos: "x \<le> 0 \<Longrightarrow> fl x \<le> 0"
  using fl_le_grid [of x 0] by simp

lemma fl_mono:
  assumes "x \<le> y"
  shows "fl x \<le> fl y"
proof -
  consider "0 < x" | "x \<le> 0" "0 \<le> y" | "y < 0" by linarith
  then show ?thesis
  proof cases
    case 1
    then show ?thesis using assms by (rule fl_mono_pos)
  next
    case 2
    then show ?thesis using fl_nonpos [of x] fl_nonneg [of y] by linarith
  next
    case 3
    then have "0 < - y" "- y \<le> - x" using assms by simp_all
    then have "fl (- y) \<le> fl (- x)" by (rule fl_mono_pos)
    then show ?thesis by (simp add: fl_minus)
  qed
qed

lemma fl_numeral_small [simp]:
  "fl 1 = 1" "fl 2 = 2" "fl 3 = 3" "fl 4 = 4"
  using fl_of_int [of 1] fl_of_int [of 2] fl_of_int [of 3] fl_of_int [of 4] by simp_all

lemma fl_half [simp]: "fl (1 / 2) = 1 / 2" "fl (1 / 4) = 1 / 4"
  using fl_exact [of "1 / 2" 1 "- 1"] fl_exact [of "1 / 4" 1 "- 2"] by simp_all

lemma fl_unit:
  assumes "0 \<le> x" "x \<le> 1"
  shows "0 \<le> fl x" "fl x \<le> 1"
  using fl_mono [OF assms(1)] fl_mono [OF assms(2)] by simp_all

lemma fl_twice:
  assumes "fl s = s"
  shows "fl (2 * s) = 2 * s"
proof (cases "s = 0")
  case True
  then show ?thesis by simp
next
  case False
  from fl_grid [OF False] obtain n j
    where g: "fl s = of_int n * 2 powi j" "\<bar>n\<bar> \<le> 2 ^ 53" "- 1074 \<le> j" by blast
  have "2 * s = of_int n * 2 powi (j + 1)"
    using g(1) assms by (simp add: pow2_add)
  then show ?thesis using g(2,3) by (intro fl_exact [of _ n "j + 1"]) simp_all
qed

lemma quantum_le:
  assumes "x \<noteq> 0" "\<bar>x\<bar> < 2 powi K" "- 1021 \<le> K"
  shows "quantum x \<le> 2 powi (K - 53)"
proof -
  have "2 powi \<lfloor>log 2 \<bar>x\<bar>\<rfloor> < (2::real) powi K"
    using binade(1) [OF assms(1)] assms(2) by linarith
  then have "\<lfloor>log 2 \<bar>x\<bar>\<rfloor> < K" by (simp only: pow2_less_iff)
  then have "max (\<lfloor>log 2 \<bar>x\<bar>\<rfloor> - 52) (- 1074) \<le> K - 53" using assms(3) by simp
  then show ?thesis unfolding quantum_def by (simp only: pow2_le_iff)
qed

lemma fl_error_below:
  assumes "\<bar>x\<bar> < 2 powi K" "- 1021 \<le> K"
  shows "\<bar>fl x - x\<bar> \<le> 2 powi (K - 54)"
proof (cases "x = 0")
  case True
  then show ?thesis by simp
next
  case False
  have "\<bar>fl x - x\<bar> \<le> quantum x / 2" by (rule fl_error)
  also have "\<dots> \<le> 2 powi (K - 53) / 2"
    using quantum_le [OF False assms] by simp
  also have "\<dots> = 2 powi (K - 54)"
    using pow2_diff [of "K - 53" 1] by simp
  finally show ?thesis .
qed


lemma rne_add_small:
  assumes "0 \<le> t" "t < 1 / 2"
  shows "rne (of_int m + t) = m"
proof -
  have "\<lfloor>of_int m + t\<rfloor> = m" using assms by linarith
  then show ?thesis using assms by (simp add: rne_def Let_def)
qed

lemma fl_in_unit_binade:
  assumes "1 / 2 \<le> x" "x < 1"
  shows "fl x = of_int (rne (x * 2 ^ 53)) / 2 ^ 53"
proof -
  have "2 powi (- 1) \<le> \<bar>x\<bar>" "\<bar>x\<bar> < 2 powi (- 1 + 1)" using assms by simp_all
  from quantum_eq [OF this] have q: "quantum x = 1 / 2 ^ 53"
    by (simp add: power_int_minus_divide)
  have "x \<noteq> 0" using assms by simp
  then show ?thesis by (simp add: fl_def q)
qed

lemma double_grid_unit:
  assumes "fl s = s" "1 / 2 < s" "s < 1"
  shows "\<exists>N::int. s = of_int N / 2 ^ 53 \<and> 2 ^ 52 < N \<and> N < 2 ^ 53"
proof -
  define N where "N = rne (s * 2 ^ 53)"
  have s: "s = of_int N / 2 ^ 53"
    using fl_in_unit_binade [of s] assms by (simp add: N_def)
  have "real_of_int N / 2 ^ 53 < 1" "1 / 2 < real_of_int N / 2 ^ 53"
    using assms s by simp_all
  then have "real_of_int N < real_of_int (2 ^ 53)" "real_of_int (2 ^ 52) < real_of_int N"
    by (simp_all add: field_simps)
  then have "2 ^ 52 < N" "N < 2 ^ 53" by (simp_all only: of_int_less_iff)
  with s show ?thesis by blast
qed

lemma square_round_near_one:
  assumes N: "s = of_int N / 2 ^ 53" "2 ^ 52 < N" "N < 2 ^ 53"
  defines "\<delta> \<equiv> 1 - s"
  shows "fl (s * s) \<le> s * s + \<delta> * \<delta>"
proof (cases "2 powi (- 54) \<le> \<delta> * \<delta>")
  case True
  have "0 < s" "s < 1" using N by (simp_all add: field_simps)
  then have "\<bar>s * s\<bar> < 2 powi 0"
    using mult_strict_mono [of s 1 s 1] by simp
  from fl_error_below [OF this] have "\<bar>fl (s * s) - s * s\<bar> \<le> 2 powi (- 54)" by simp
  with True show ?thesis by linarith
next
  case False
  then have small: "\<delta> * \<delta> < 1 / 2 ^ 54" by (simp add: power_int_minus_divide)
  have d0: "0 < \<delta>" "\<delta> < 1 / 2" using N by (simp_all add: \<delta>_def field_simps)
  have "\<delta> < 1 / 4"
  proof (rule ccontr)
    assume "\<not> \<delta> < 1 / 4"
    then have "1 / 4 * (1 / 4) \<le> \<delta> * \<delta>" by (intro mult_mono) simp_all
    with small show False by simp
  qed
  then have s34: "3 / 4 < s" by (simp add: \<delta>_def)
  then have "3 / 4 * (3 / 4) \<le> s * s" by (intro mult_mono) simp_all
  moreover have "s * s < 1"
    using mult_strict_mono [of s 1 s 1] s34 d0 by (simp add: \<delta>_def)
  ultimately have b: "1 / 2 \<le> s * s" "s * s < 1" by simp_all
  define d where "d = 2 ^ 53 - N"
  have \<delta>: "\<delta> = of_int d / 2 ^ 53" by (simp add: \<delta>_def N(1) d_def field_simps)
  have "s * s = (1 - 2 * \<delta>) + \<delta> * \<delta>" by (simp add: \<delta>_def algebra_simps)
  then have "s * s * 2 ^ 53 = (1 - 2 * \<delta>) * 2 ^ 53 + \<delta> * \<delta> * 2 ^ 53"
    by (simp add: algebra_simps)
  also have "(1 - 2 * \<delta>) * 2 ^ 53 = of_int (2 ^ 53 - 2 * d)"
    by (simp add: \<delta> field_simps)
  finally have e: "s * s * 2 ^ 53 = of_int (2 ^ 53 - 2 * d) + \<delta> * \<delta> * 2 ^ 53" .
  have "rne (s * s * 2 ^ 53) = 2 ^ 53 - 2 * d"
    unfolding e using small d0 by (intro rne_add_small) (simp_all add: field_simps)
  then have "fl (s * s) = of_int (2 ^ 53 - 2 * d) / 2 ^ 53"
    by (simp add: fl_in_unit_binade [OF b])
  also have "\<dots> = 1 - 2 * \<delta>" by (simp add: \<delta> field_simps)
  finally have "fl (s * s) = s * s - \<delta> * \<delta>" by (simp add: \<delta>_def algebra_simps)
  then show ?thesis using d0 by simp
qed

lemma fl_eq_intro:
  assumes "2 powi k \<le> \<bar>x\<bar>" "\<bar>x\<bar> < 2 powi (k + 1)" "- 1022 \<le> k"
    and "rne (x / 2 powi (k - 52)) = n" "y = of_int n * 2 powi (k - 52)"
  shows "fl x = y"
proof -
  have "0 < (2::real) powi k" by simp
  with assms(1) have "0 < \<bar>x\<bar>" by linarith
  then have "x \<noteq> 0" by simp
  moreover have "quantum x = 2 powi (k - 52)"
    using quantum_eq [OF assms(1,2)] assms(3) by simp
  ultimately show ?thesis using assms(4,5) by (simp add: fl_def)
qed

lemma fl_error_4:
  assumes "\<bar>x\<bar> < 4"
  shows "\<bar>fl x - x\<bar> \<le> 1 / 2 ^ 52"
  using fl_error_below [of x 2] assms by (simp add: power_int_minus_divide)

lemma fl_minus_one [simp]: "fl (- 1) = - 1"
  using fl_of_int [of "- 1"] by simp

lemma fl_numeral [simp]:
  "numeral n \<le> (2 ^ 53 :: int) \<Longrightarrow> fl (numeral n) = numeral n"
  using fl_of_int [of "numeral n"] by simp

lemma fl_neg_numeral [simp]:
  "numeral n \<le> (2 ^ 53 :: int) \<Longrightarrow> fl (- numeral n) = - numeral n"
  using fl_of_int [of "- numeral n"] by simp

section \<open>Properties of the state machine\<close>

lemmas thresholds =
  SEED_TO_SPROUT_VOLUME_def BLOOM_TO_SCATTER_VOLUME_def
  SPROUT_TO_STEM_LENGTH_def STEM_TO_BLOOM_LENGTH_def

text \<open>
  Claim C1. For every call \<^verbatim>\<open>update(volume, growthProgress)\<close>: from Seed the state
  becomes Sprout exactly when \<open>volume \<ge> 30\<close>; from Sprout it becomes Stem exactly when
  \<open>growthProgress \<ge> 100\<close>; from Stem it becomes Bloom exactly when
  \<open>growthProgress \<ge> 300\<close>; from Bloom it becomes Scatter exactly when \<open>volume \<ge> 70\<close>;
  from Scatter the state never changes; when the condition of the current state fails
  the state is kept; and one call moves the state by at most one position of the enum,
  never backwards.
\<close>

theorem StateMachine_update_transitions:
  fixes sm :: StateMachine and volume growthProgress :: real
  defines "s \<equiv> currentState sm"
      and "s' \<equiv> currentState (StateMachine_update sm volume growthProgress)"
  shows "(s = SEED \<longrightarrow> (s' = SPROUT \<longleftrightarrow> volume \<ge> 30) \<and> (s' = SEED \<longleftrightarrow> volume < 30))
       \<and> (s = SPROUT \<longrightarrow> (s' = STEM \<longleftrightarrow> growthProgress \<ge> 100) \<and> (s' = SPROUT \<longleftrightarrow> growthProgress < 100))
       \<and> (s = STEM \<longrightarrow> (s' = BLOOM \<longleftrightarrow> growthProgress \<ge> 300) \<and> (s' = STEM \<longleftrightarrow> growthProgress < 300))
       \<and> (s = BLOOM \<longrightarrow> (s' = SCATTER \<longleftrightarrow> volume \<ge> 70) \<and> (s' = BLOOM \<longleftrightarrow> volume < 70))
       \<and> (s = SCATTER \<longrightarrow> s' = SCATTER)
       \<and> stage s \<le> stage s' \<and> stage s' \<le> stage s + 1"
  unfolding s_def s'_def
  by (cases "currentState sm") (simp_all add: StateMachine_update_def thresholds)

theorem StateMachine_update_transitions_witness:
  "currentState (StateMachine_update StateMachine_new 30 0) = SPROUT
   \<and> currentState (StateMachine_update StateMachine_new 29 0) = SEED
   \<and> currentState (StateMachine_update \<lparr>currentState = SPROUT\<rparr> 100 100) = STEM
   \<and> currentState (StateMachine_update \<lparr>currentState = STEM\<rparr> 100 300) = BLOOM
   \<and> currentState (StateMachine_update \<lparr>currentState = BLOOM\<rparr> 70 300) = SCATTER
   \<and> currentState (StateMachine_update \<lparr>currentState = SCATTER\<rparr> 100 1000) = SCATTER"
  using StateMachine_update_transitions [of StateMachine_new 30 0]
        StateMachine_update_transitions [of StateMachine_new 29 0]
        StateMachine_update_transitions [of "\<lparr>currentState = SPROUT\<rparr>" 100 100]
        StateMachine_update_transitions [of "\<lparr>currentState = STEM\<rparr>" 100 300]
        StateMachine_update_transitions [of "\<lparr>currentState = BLOOM\<rparr>" 70 300]
        StateMachine_update_transitions [of "\<lparr>currentState = SCATTER\<rparr>" 100 1000]
  by (simp add: StateMachine_new_def)

section \<open>Properties of the growth parameters\<close>

lemma smoothstep_nonneg:
  fixes s :: real
  assumes "0 \<le> s" "s \<le> 1"
  shows "0 \<le> s * s * (3 - 2 * s)"
proof -
  have "0 \<le> 3 - 2 * s" using assms by simp
  with assms show ?thesis by (intro mult_nonneg_nonneg) simp_all
qed

lemma smoothstep_le_one:
  fixes s :: real
  assumes "0 \<le> s" "s \<le> 1"
  shows "s * s * (3 - 2 * s) \<le> 1"
proof -
  have "1 - s * s * (3 - 2 * s) = (1 - s) * (1 - s) * (1 + 2 * s)"
    by (simp add: algebra_simps)
  moreover have "0 \<le> (1 - s) * (1 - s) * (1 + 2 * s)"
    using assms by (intro mult_nonneg_nonneg) simp_all
  ultimately show ?thesis by linarith
qed

lemma smoothstep_mono:
  fixes s t :: real
  assumes "0 \<le> s" "s \<le> t" "t \<le> 1"
  shows "s * s * (3 - 2 * s) \<le> t * t * (3 - 2 * t)"
proof -
  have "t * t * (3 - 2 * t) - s * s * (3 - 2 * s)
        = (t - s) * (t * (3 - 2 * t - s) + s * (3 - 2 * s - t))"
    by (simp add: algebra_simps)
  moreover have "0 \<le> (t - s) * (t * (3 - 2 * t - s) + s * (3 - 2 * s - t))"
    using assms by (intro mult_nonneg_nonneg add_nonneg_nonneg) simp_all
  ultimately show ?thesis by linarith
qed

lemma eased_le_one:
  assumes d: "fl s = s" and s: "0 \<le> s" "s \<le> 1"
  shows "fl (s * s) * fl (3 - fl (2 * s)) \<le> 1"
proof -
  have t: "fl (2 * s) = 2 * s" by (rule fl_twice [OF d])
  consider "s \<le> 1 / 2" | "s = 1" | "1 / 2 < s" "s < 1" using s by linarith
  then show ?thesis
  proof cases
    case 1
    have "s * s \<le> 1 / 2 * (1 / 2)" using 1 s by (intro mult_mono) simp_all
    then have "fl (s * s) \<le> fl (1 / 4)" by (intro fl_mono) simp
    then have a: "fl (s * s) \<le> 1 / 4" by simp
    have a0: "0 \<le> fl (s * s)" by (intro fl_nonneg) simp
    have "fl (3 - 2 * s) \<le> fl 3" using s by (intro fl_mono) simp
    then have b: "fl (3 - 2 * s) \<le> 3" by simp
    have b0: "0 \<le> fl (3 - 2 * s)" using s by (intro fl_nonneg) simp
    have "fl (s * s) * fl (3 - 2 * s) \<le> 1 / 4 * 3" using a b a0 b0 by (intro mult_mono) simp_all
    then show ?thesis by (simp add: t)
  next
    case 2
    then show ?thesis by simp
  next
    case 3
    from double_grid_unit [OF d 3] obtain N :: int
      where N: "s = of_int N / 2 ^ 53" "2 ^ 52 < N" "N < 2 ^ 53" by blast
    define \<delta> where "\<delta> = 1 - s"
    have d0: "0 < \<delta>" "\<delta> < 1 / 2" using 3 by (simp_all add: \<delta>_def)
    have a: "fl (s * s) \<le> s * s + \<delta> * \<delta>"
      using square_round_near_one [OF N] by (simp add: \<delta>_def)
    have "3 - 2 * s = of_int (3 * 2 ^ 52 - N) * 2 powi (- 52)"
      by (simp add: N(1) power_int_minus_divide field_simps)
    moreover have "\<bar>3 * 2 ^ 52 - N\<bar> \<le> 2 ^ 53" using N(2,3) by simp
    ultimately have b: "fl (3 - 2 * s) = 3 - 2 * s" by (intro fl_exact [of _ "3 * 2 ^ 52 - N" "- 52"]) simp_all
    have w: "0 \<le> 3 - 2 * s" using s by simp
    have "fl (s * s) * (3 - 2 * s) \<le> (s * s + \<delta> * \<delta>) * (3 - 2 * s)"
      using a w by (rule mult_right_mono)
    also have "\<dots> = 1 - 2 * (\<delta> * \<delta>) * (1 - 2 * \<delta>)"
      by (simp add: \<delta>_def algebra_simps)
    also have "\<dots> \<le> 1"
    proof -
      have "0 \<le> 2 * (\<delta> * \<delta>) * (1 - 2 * \<delta>)" using d0 by (intro mult_nonneg_nonneg) simp_all
      then show ?thesis by simp
    qed
    finally show ?thesis by (simp add: t b)
  qed
qed

lemma calculateGrowthSpeed_range:
  assumes "0 \<le> v" "v \<le> 100"
  shows "1 \<le> calculateGrowthSpeed v" "calculateGrowthSpeed v \<le> 3"
proof -
  define s where "s = fl (v / 100)"
  have s: "0 \<le> s" "s \<le> 1" "fl s = s"
    using fl_unit [of "v / 100"] assms by (simp_all add: s_def)
  define E where "E = fl (fl (s * s) * fl (3 - fl (2 * s)))"
  have "0 \<le> fl (s * s)" by (intro fl_nonneg) simp
  moreover have "0 \<le> fl (3 - fl (2 * s))"
    using s by (intro fl_nonneg) (simp add: fl_twice)
  ultimately have "0 \<le> fl (s * s) * fl (3 - fl (2 * s))" by (rule mult_nonneg_nonneg)
  then have E: "0 \<le> E" "E \<le> 1"
    using fl_unit [OF _ eased_le_one [OF s(3) s(1,2)]] by (simp_all add: E_def)
  have "0 \<le> E * 2" "E * 2 \<le> 2" using E by simp_all
  then have "fl 0 \<le> fl (E * 2)" "fl (E * 2) \<le> fl 2" by (intro fl_mono; simp)+
  then have "1 \<le> 1 + fl (E * 2)" "1 + fl (E * 2) \<le> 3" by simp_all
  then have "fl 1 \<le> fl (1 + fl (E * 2))" "fl (1 + fl (E * 2)) \<le> fl 3" by (intro fl_mono; simp)+
  then show "1 \<le> calculateGrowthSpeed v" "calculateGrowthSpeed v \<le> 3"
    by (simp_all add: calculateGrowthSpeed_def Let_def s_def E_def)
qed


lemma calculateGrowthSpeed_error:
  assumes "0 \<le> v" "v \<le> 100"
  defines "r \<equiv> v / 100"
  shows "\<bar>calculateGrowthSpeed v - (1 + 2 * r * r * (3 - 2 * r))\<bar> \<le> 1 / 2 ^ 47"
proof -
  define \<epsilon> :: real where "\<epsilon> = 1 / 2 ^ 52"
  define s where "s = fl r"
  define A where "A = fl (s * s)"
  define B where "B = fl (3 - fl (2 * s))"
  define E where "E = fl (A * B)"
  have r: "0 \<le> r" "r \<le> 1" using assms by (simp_all add: r_def)
  have s: "0 \<le> s" "s \<le> 1" "fl s = s" using fl_unit [OF r] by (simp_all add: s_def)
  have es: "\<bar>s - r\<bar> \<le> \<epsilon>" using fl_error_4 [of r] r by (simp add: s_def \<epsilon>_def)
  have ss: "0 \<le> s * s" "s * s \<le> 1" using s mult_mono [of s 1 s 1] by simp_all
  have A: "0 \<le> A" "A \<le> 1" using fl_unit [OF ss] by (simp_all add: A_def)
  have "\<bar>A - s * s\<bar> \<le> \<epsilon>" using fl_error_4 [of "s * s"] ss by (simp add: A_def \<epsilon>_def)
  moreover have "\<bar>s * s - r * r\<bar> \<le> 2 * \<epsilon>"
  proof -
    have "s * s - r * r = (s - r) * (s + r)" by (simp add: algebra_simps)
    then have "\<bar>s * s - r * r\<bar> = \<bar>s - r\<bar> * \<bar>s + r\<bar>" by (simp add: abs_mult)
    also have "\<dots> \<le> \<epsilon> * 2" using es s r by (intro mult_mono) simp_all
    finally show ?thesis by simp
  qed
  ultimately have eA: "\<bar>A - r * r\<bar> \<le> 3 * \<epsilon>" by linarith
  have t: "fl (2 * s) = 2 * s" by (rule fl_twice [OF s(3)])
  have w: "1 \<le> 3 - 2 * s" "3 - 2 * s \<le> 3" using s by simp_all
  then have "fl 1 \<le> fl (3 - 2 * s)" "fl (3 - 2 * s) \<le> fl 3" by (intro fl_mono; simp)+
  then have B: "1 \<le> B" "B \<le> 3" by (simp_all add: B_def t)
  have "\<bar>B - (3 - 2 * s)\<bar> \<le> \<epsilon>"
    using fl_error_4 [of "3 - 2 * s"] w by (simp add: B_def t \<epsilon>_def)
  then have eB: "\<bar>B - (3 - 2 * r)\<bar> \<le> 3 * \<epsilon>" using es by linarith
  have AB: "0 \<le> A * B" "A * B \<le> 3" using A B mult_mono [of A 1 B 3] by simp_all
  have "\<bar>E - A * B\<bar> \<le> \<epsilon>" using fl_error_4 [of "A * B"] AB by (simp add: E_def \<epsilon>_def)
  moreover have "\<bar>A * B - r * r * (3 - 2 * r)\<bar> \<le> 12 * \<epsilon>"
  proof -
    have "A * B - r * r * (3 - 2 * r) = (A - r * r) * B + r * r * (B - (3 - 2 * r))"
      by (simp add: algebra_simps)
    then have "\<bar>A * B - r * r * (3 - 2 * r)\<bar>
        \<le> \<bar>(A - r * r) * B\<bar> + \<bar>r * r * (B - (3 - 2 * r))\<bar>"
      by (simp only: abs_triangle_ineq)
    then have "\<bar>A * B - r * r * (3 - 2 * r)\<bar>
        \<le> \<bar>A - r * r\<bar> * \<bar>B\<bar> + \<bar>r * r\<bar> * \<bar>B - (3 - 2 * r)\<bar>"
      by (simp only: abs_mult)
    also have "\<dots> \<le> 3 * \<epsilon> * 3 + 1 * (3 * \<epsilon>)"
    proof -
      have "r * r \<le> 1" using r mult_mono [of r 1 r 1] by simp
      moreover have "0 \<le> r * r" by simp
      ultimately have "\<bar>r * r\<bar> \<le> 1" by simp
      then show ?thesis using eA eB B by (intro add_mono mult_mono) simp_all
    qed
    finally show ?thesis by simp
  qed
  ultimately have eE: "\<bar>E - r * r * (3 - 2 * r)\<bar> \<le> 13 * \<epsilon>" by linarith
  have "fl E = E" by (simp add: E_def)
  then have e2: "fl (E * 2) = E * 2" using fl_twice [of E] by (simp add: mult.commute)
  have "A * B \<le> 1" using eased_le_one [OF s(3) s(1,2)] by (simp add: A_def B_def)
  from fl_unit [OF AB(1) this] have "0 \<le> E" "E \<le> 1" by (simp_all add: E_def)
  then have "\<bar>1 + E * 2\<bar> < 4" by simp
  then have "\<bar>fl (1 + E * 2) - (1 + E * 2)\<bar> \<le> \<epsilon>"
    using fl_error_4 [of "1 + E * 2"] by (simp add: \<epsilon>_def)
  then have "\<bar>fl (1 + E * 2) - (1 + 2 * r * r * (3 - 2 * r))\<bar> \<le> 27 * \<epsilon>"
    using eE by (simp add: algebra_simps abs_le_iff)
  moreover have "calculateGrowthSpeed v = fl (1 + fl (E * 2))"
    by (simp add: calculateGrowthSpeed_def Let_def E_def A_def B_def s_def r_def)
  then have "calculateGrowthSpeed v = fl (1 + E * 2)" by (simp only: e2)
  ultimately show ?thesis by (simp add: \<epsilon>_def)
qed

lemma calculateGrowthSpeed_almost_mono:
  assumes "0 \<le> u" "u \<le> v" "v \<le> 100"
  shows "calculateGrowthSpeed u \<le> calculateGrowthSpeed v + 1 / 2 ^ 46"
proof -
  have u: "u \<le> 100" and v: "0 \<le> v" using assms by simp_all
  have "0 \<le> u / 100" "u / 100 \<le> v / 100" "v / 100 \<le> 1" using assms by simp_all
  from smoothstep_mono [OF this]
  have "2 * (u / 100 * (u / 100) * (3 - 2 * (u / 100)))
      \<le> 2 * (v / 100 * (v / 100) * (3 - 2 * (v / 100)))" by (rule mult_left_mono) simp
  then have m: "1 + 2 * (u / 100) * (u / 100) * (3 - 2 * (u / 100))
      \<le> 1 + 2 * (v / 100) * (v / 100) * (3 - 2 * (v / 100))" by (simp only: mult.assoc add_le_cancel_left)
  have "(1::real) / 2 ^ 46 = 1 / 2 ^ 47 + 1 / 2 ^ 47" by simp
  with m calculateGrowthSpeed_error [OF assms(1) u] calculateGrowthSpeed_error [OF v assms(3)] show ?thesis
    by (simp only: abs_le_iff) linarith
qed

lemma calculateGrowthSpeed_values: "calculateGrowthSpeed 0 = 1" "calculateGrowthSpeed 50 = 2" "calculateGrowthSpeed 100 = 3"
  by (simp_all add: calculateGrowthSpeed_def Let_def)


lemma calculateColorHue_range:
  "120 \<le> calculateColorHue pitch" "calculateColorHue pitch \<le> 180"
  by (simp_all add: calculateColorHue_def)

lemma calculateColorSaturation_range:
  "50 \<le> calculateColorSaturation pitch" "calculateColorSaturation pitch \<le> 80"
  by (simp_all add: calculateColorSaturation_def)

lemma calculateColorLightness_range:
  "30 \<le> calculateColorLightness pitch" "calculateColorLightness pitch \<le> 70"
  by (simp_all add: calculateColorLightness_def Let_def)

text \<open>
  Claim C2, as the code has it. For every volume, pitch and time step,
  \<^verbatim>\<open>GrowthController.update\<close> returns a parameter record (no input is rejected) whose
  colorHue lies in [120,180], colorSaturation in [50,80] and colorLightness in [30,70],
  whatever the pitch; growthSpeed lies in [1,3] when the volume lies in [0,100]. The
  volume itself is not clamped.
\<close>

theorem GrowthController_update_ranges:
  fixes gc :: GrowthController and volume pitch deltaTime :: real
  defines "ps \<equiv> GrowthController_update gc volume pitch deltaTime"
  shows "120 \<le> colorHue ps \<and> colorHue ps \<le> 180
       \<and> 50 \<le> colorSaturation ps \<and> colorSaturation ps \<le> 80
       \<and> 30 \<le> colorLightness ps \<and> colorLightness ps \<le> 70
       \<and> (0 \<le> volume \<and> volume \<le> 100 \<longrightarrow> 1 \<le> growthSpeed ps \<and> growthSpeed ps \<le> 3)"
  unfolding ps_def GrowthController_update_def
  using calculateColorHue_range [of pitch] calculateColorSaturation_range [of pitch]
        calculateColorLightness_range [of pitch] calculateGrowthSpeed_range [of volume]
  by simp

theorem GrowthController_update_ranges_witness:
  "(0::real) \<le> 40 \<and> (40::real) \<le> 100
   \<and> 1 \<le> growthSpeed (GrowthController_update GrowthController_new 40 (-50) 0)
   \<and> growthSpeed (GrowthController_update GrowthController_new 40 (-50) 0) \<le> 3
   \<and> colorHue (GrowthController_update GrowthController_new 40 (-50) 0) = 120
   \<and> colorLightness (GrowthController_update GrowthController_new 40 (-50) 0) = 30"
  using GrowthController_update_ranges [of GrowthController_new 40 "-50" 0]
  by (simp add: GrowthController_update_def calculateColorHue_def
        calculateColorLightness_def Let_def)

text \<open>
  Claim C2 as stated fails for the growth speed: at volume 200 the smoothstep
  polynomial gives \<open>1 + 2 \<sqdot> 2 \<sqdot> 2 \<sqdot> (3 - 4) = -7\<close>, outside [1,3].
\<close>

theorem GrowthController_update_unclamped_volume:
  "growthSpeed (GrowthController_update GrowthController_new 200 300 0) = -7
   \<and> \<not> (1 \<le> growthSpeed (GrowthController_update GrowthController_new 200 300 0)
        \<and> growthSpeed (GrowthController_update GrowthController_new 200 300 0) \<le> 3)"
  by (simp add: GrowthController_update_def calculateGrowthSpeed_def Let_def)

text \<open>
  Claim C5, as the code has it. For every volume in [0,100] the growth speed is
  \<open>1 + 2 s s (3 - 2 s)\<close> with \<open>s = volume / 100\<close>, each operation rounded to binary64.
  It differs from the exact value of that formula by at most \<open>2 ^ -47\<close> and lies in
  [1,3]. It is non-decreasing in the volume up to rounding only: for \<open>u \<le> v\<close> in
  [0,100], \<open>growthSpeed u \<le> growthSpeed v + 2 ^ -46\<close>. At the volumes 0, 50 and 100 it
  is exactly 1, 2 and 3.
\<close>

theorem calculateGrowthSpeed_smoothstep:
  assumes "0 \<le> u" "u \<le> v" "v \<le> 100"
  shows "\<bar>calculateGrowthSpeed v - (1 + 2 * (v / 100) * (v / 100) * (3 - 2 * (v / 100)))\<bar>
           \<le> 1 / 2 ^ 47
       \<and> 1 \<le> calculateGrowthSpeed v \<and> calculateGrowthSpeed v \<le> 3
       \<and> calculateGrowthSpeed u \<le> calculateGrowthSpeed v + 1 / 2 ^ 46
       \<and> calculateGrowthSpeed 0 = 1
       \<and> calculateGrowthSpeed 50 = 2
       \<and> calculateGrowthSpeed 100 = 3"
proof -
  have v: "0 \<le> v" using assms by simp
  show ?thesis
    using calculateGrowthSpeed_error [OF v assms(3)] calculateGrowthSpeed_range [OF v assms(3)]
      calculateGrowthSpeed_almost_mono [OF assms] calculateGrowthSpeed_values
    by simp
qed

theorem calculateGrowthSpeed_smoothstep_witness:
  "(0::real) \<le> 25 \<and> (25::real) \<le> 75 \<and> (75::real) \<le> 100
   \<and> \<bar>calculateGrowthSpeed 75 - 43 / 16\<bar> \<le> 1 / 2 ^ 47
   \<and> 1 \<le> calculateGrowthSpeed 75 \<and> calculateGrowthSpeed 75 \<le> 3
   \<and> calculateGrowthSpeed 25 \<le> calculateGrowthSpeed 75 + 1 / 2 ^ 46"
  using calculateGrowthSpeed_smoothstep [of 25 75] by simp

text \<open>
  Claim C5 as stated fails on the monotonicity: the volumes 99.99000000011364 and
  99.99000000011365 (the binary64 values written out below) give the growth speeds
  2.9999999400040016 and 2.999999940004001, the larger volume the smaller speed.
\<close>

theorem calculateGrowthSpeed_not_monotone:
  "(0::real) \<le> 1759042682583155 / 2 ^ 44 \<and> (1759042682583155 / 2 ^ 44 :: real) < 7036170730332621 / 2 ^ 46 \<and> (7036170730332621 / 2 ^ 46 :: real) \<le> 100 \<and> calculateGrowthSpeed (1759042682583155 / 2 ^ 44) = (3377699652978383 / 2 ^ 50) \<and> calculateGrowthSpeed (7036170730332621 / 2 ^ 46) = (6755399305956765 / 2 ^ 51) \<and> calculateGrowthSpeed (7036170730332621 / 2 ^ 46) < calculateGrowthSpeed (1759042682583155 / 2 ^ 44)"
proof -
  have u1: "fl ((1759042682583155 / 2 ^ 44) / 100) = (4503149267412877 / 2 ^ 52)"
    by (rule fl_eq_intro [where k = "- 1" and n = 9006298534825754]) (simp_all add: rne_def Let_def)
  have u2: "fl ((4503149267412877 / 2 ^ 52) * (4503149267412877 / 2 ^ 52)) = (9005397904982507 / 2 ^ 53)"
    by (rule fl_eq_intro [where k = "- 1" and n = 9005397904982507]) (simp_all add: rne_def Let_def)
  have u3: "fl (2 * (4503149267412877 / 2 ^ 52)) = (4503149267412877 / 2 ^ 51)"
    by (rule fl_eq_intro [where k = "0" and n = 9006298534825754]) (simp_all add: rne_def Let_def)
  have u4: "fl (3 - (4503149267412877 / 2 ^ 51)) = (2252250173642867 / 2 ^ 51)"
    by (rule fl_eq_intro [where k = "0" and n = 4504500347285734]) (simp_all add: rne_def Let_def)
  have u5: "fl ((9005397904982507 / 2 ^ 53) * (2252250173642867 / 2 ^ 51)) = (9007198984543035 / 2 ^ 53)"
    by (rule fl_eq_intro [where k = "- 1" and n = 9007198984543035]) (simp_all add: rne_def Let_def)
  have u6: "fl ((9007198984543035 / 2 ^ 53) * 2) = (9007198984543035 / 2 ^ 52)"
    by (rule fl_eq_intro [where k = "0" and n = 9007198984543035]) (simp_all add: rne_def Let_def)
  have u7: "fl (1 + (9007198984543035 / 2 ^ 52)) = (3377699652978383 / 2 ^ 50)"
    by (rule fl_eq_intro [where k = "1" and n = 6755399305956766]) (simp_all add: rne_def Let_def)
  have v1: "fl ((7036170730332621 / 2 ^ 46) / 100) = (9006298534825755 / 2 ^ 53)"
    by (rule fl_eq_intro [where k = "- 1" and n = 9006298534825755]) (simp_all add: rne_def Let_def)
  have v2: "fl ((9006298534825755 / 2 ^ 53) * (9006298534825755 / 2 ^ 53)) = (2251349476245627 / 2 ^ 51)"
    by (rule fl_eq_intro [where k = "- 1" and n = 9005397904982508]) (simp_all add: rne_def Let_def)
  have v3: "fl (2 * (9006298534825755 / 2 ^ 53)) = (9006298534825755 / 2 ^ 52)"
    by (rule fl_eq_intro [where k = "0" and n = 9006298534825755]) (simp_all add: rne_def Let_def)
  have v4: "fl (3 - (9006298534825755 / 2 ^ 52)) = (4504500347285733 / 2 ^ 52)"
    by (rule fl_eq_intro [where k = "0" and n = 4504500347285733]) (simp_all add: rne_def Let_def)
  have v5: "fl ((2251349476245627 / 2 ^ 51) * (4504500347285733 / 2 ^ 52)) = (4503599492271517 / 2 ^ 52)"
    by (rule fl_eq_intro [where k = "- 1" and n = 9007198984543034]) (simp_all add: rne_def Let_def)
  have v6: "fl ((4503599492271517 / 2 ^ 52) * 2) = (4503599492271517 / 2 ^ 51)"
    by (rule fl_eq_intro [where k = "0" and n = 9007198984543034]) (simp_all add: rne_def Let_def)
  have v7: "fl (1 + (4503599492271517 / 2 ^ 51)) = (6755399305956765 / 2 ^ 51)"
    by (rule fl_eq_intro [where k = "1" and n = 6755399305956765]) (simp_all add: rne_def Let_def)
  have gu: "calculateGrowthSpeed (1759042682583155 / 2 ^ 44) = (3377699652978383 / 2 ^ 50)"
    unfolding calculateGrowthSpeed_def Let_def u1 u2 u3 u4 u5 u6 u7 ..
  have gv: "calculateGrowthSpeed (7036170730332621 / 2 ^ 46) = (6755399305956765 / 2 ^ 51)"
    unfolding calculateGrowthSpeed_def Let_def v1 v2 v3 v4 v5 v6 v7 ..
  show ?thesis unfolding gu gv by simp
qed



section \<open>Properties of particle generation\<close>

lemma spawn_fields:
  "p_x (spawn m n b v seed now x0 y0 col part idx) = x0"
  "p_y (spawn m n b v seed now x0 y0 col part idx) = y0"
  "p_color (spawn m n b v seed now x0 y0 col part idx) = col"
  "p_alpha (spawn m n b v seed now x0 y0 col part idx) = 1"
  "p_life (spawn m n b v seed now x0 y0 col part idx) = 1"
  "p_maxLife (spawn m n b v seed now x0 y0 col part idx) = fl (3 + fl (Math_random m (n + 3) * 2))"
  "p_targetX (spawn m n b v seed now x0 y0 col part idx) = point_x seed"
  "p_targetY (spawn m n b v seed now x0 y0 col part idx) = point_y seed"
  "p_birthTime (spawn m n b v seed now x0 y0 col part idx) = now"
  "p_partType (spawn m n b v seed now x0 y0 col part idx) = Some part"
  "p_partIndex (spawn m n b v seed now x0 y0 col part idx) = idx"
  by (simp_all add: spawn_def Let_def)

lemma spawn_vy_double:
  "fl (p_vy (spawn m n b v seed now x0 y0 col part idx))
     = p_vy (spawn m n b v seed now x0 y0 col part idx)"
  by (simp add: spawn_def Let_def)

lemma length_concat_const:
  "(\<And>x. x \<in> set xs \<Longrightarrow> length (f x) = k) \<Longrightarrow> length (concat (map f xs)) = k * length xs"
  by (induction xs) simp_all

lemma map_enumerate_cong:
  "(\<And>j a. f (j, a) = g a) \<Longrightarrow> map f (enumerate n xs) = map g xs"
  by (induction xs arbitrary: n) simp_all

lemma length_flowerParticles:
  "length (flowerParticles m b v seed now fps) = length fps"
  by (simp add: flowerParticles_def)

lemma length_stemParticles:
  "length (stemParticles m n0 b v seed now h) = 11"
  by (simp add: stemParticles_def stemSegments_def)

lemma length_leafParticles:
  "length (leafParticles m n0 b v seed now leaves) = 5 * length leaves"
proof -
  have "length (leafParticles m n0 b v seed now leaves) = 5 * length (enumerate 0 leaves)"
    unfolding leafParticles_def
    by (rule length_concat_const) (auto simp: leafPoints_def)
  then show ?thesis by simp
qed

lemma flowerParticles_spawned:
  assumes "p \<in> set (flowerParticles m b v seed now fps)"
  shows "\<exists>n x0 y0 col idx. p = spawn m n b v seed now x0 y0 col flower idx"
  using assms unfolding flowerParticles_def by (auto simp del: ex_simps) blast

lemma stemParticles_spawned:
  assumes "p \<in> set (stemParticles m n0 b v seed now h)"
  shows "\<exists>n x0 y0 col idx. p = spawn m n b v seed now x0 y0 col stem idx"
proof -
  from assms obtain n x0 y0 col idx where "p = spawn m n b v seed now x0 y0 col stem idx"
    unfolding stemParticles_def Let_def by (auto simp del: upt_Suc)
  then show ?thesis by blast
qed

lemma leafParticles_spawned:
  assumes "p \<in> set (leafParticles m n0 b v seed now leaves)"
  shows "\<exists>n x0 y0 col idx. p = spawn m n b v seed now x0 y0 col leaf idx"
proof -
  from assms obtain n x0 y0 col idx where "p = spawn m n b v seed now x0 y0 col leaf idx"
    unfolding leafParticles_def Let_def by (auto simp del: upt_Suc)
  then show ?thesis by blast
qed

lemma generateParticles_spawned:
  assumes "p \<in> set (particles (generateParticles s m h leaves fps volume pitch now))"
  shows "\<exists>n b v x0 y0 col part idx. p = spawn m n b v (seedPosition s) now x0 y0 col part idx"
proof -
  from assms consider
      (fl) b v where "p \<in> set (flowerParticles m b v (seedPosition s) now fps)"
    | (st) n0 b v where "p \<in> set (stemParticles m n0 b v (seedPosition s) now h)"
    | (lf) n0 b v where "p \<in> set (leafParticles m n0 b v (seedPosition s) now leaves)"
    unfolding generateParticles_def Let_def by auto
  then show ?thesis
  proof cases
    case fl
    from flowerParticles_spawned [OF fl] obtain n x0 y0 col idx
      where "p = spawn m n b v (seedPosition s) now x0 y0 col flower idx" by blast
    then show ?thesis by blast
  next
    case st
    from stemParticles_spawned [OF st] obtain n x0 y0 col idx
      where "p = spawn m n b v (seedPosition s) now x0 y0 col stem idx" by blast
    then show ?thesis by blast
  next
    case lf
    from leafParticles_spawned [OF lf] obtain n x0 y0 col idx
      where "p = spawn m n b v (seedPosition s) now x0 y0 col leaf idx" by blast
    then show ?thesis by blast
  qed
qed

lemma generateParticles_length:
  "length (particles (generateParticles s m h leaves fps volume pitch now))
     = length fps + 11 + 5 * length leaves"
  by (simp add: generateParticles_def Let_def length_flowerParticles length_stemParticles
        length_leafParticles)

lemma generateParticles_phase:
  "phase (generateParticles s m h leaves fps volume pitch now) = scatter"
  by (simp add: generateParticles_def Let_def)

lemma flowerParticles_points:
  "map (\<lambda>p. (p_x p, p_y p, p_color p, p_partType p)) (flowerParticles m b v seed now fps)
   = map (\<lambda>pt. (fp_x pt, fp_y pt, fp_color pt, Some flower)) fps"
  unfolding flowerParticles_def map_map
  by (rule map_enumerate_cong) (simp add: spawn_fields)

lemma filter_part_flowerParticles:
  "filter (\<lambda>p. p_partType p = Some part) (flowerParticles m b v seed now fps)
   = (if part = flower then flowerParticles m b v seed now fps else [])"
proof (cases "part = flower")
  case True
  then show ?thesis
    by (simp, intro filter_True) (auto dest!: flowerParticles_spawned simp: spawn_fields)
next
  case False
  then show ?thesis
    by (simp, intro filter_False) (auto dest!: flowerParticles_spawned simp: spawn_fields)
qed

lemma filter_part_stemParticles:
  "filter (\<lambda>p. p_partType p = Some part) (stemParticles m n0 b v seed now h)
   = (if part = stem then stemParticles m n0 b v seed now h else [])"
proof (cases "part = stem")
  case True
  then show ?thesis
    by (simp, intro filter_True) (auto dest!: stemParticles_spawned simp: spawn_fields)
next
  case False
  then show ?thesis
    by (simp, intro filter_False) (auto dest!: stemParticles_spawned simp: spawn_fields)
qed

lemma filter_part_leafParticles:
  "filter (\<lambda>p. p_partType p = Some part) (leafParticles m n0 b v seed now leaves)
   = (if part = leaf then leafParticles m n0 b v seed now leaves else [])"
proof (cases "part = leaf")
  case True
  then show ?thesis
    by (simp, intro filter_True) (auto dest!: leafParticles_spawned simp: spawn_fields)
next
  case False
  then show ?thesis
    by (simp, intro filter_False) (auto dest!: leafParticles_spawned simp: spawn_fields)
qed

lemma generateParticles_part_count:
  "length (filter (\<lambda>p. p_partType p = Some part)
       (particles (generateParticles s m h leaves fps volume pitch now)))
   = (case part of flower \<Rightarrow> length fps | stem \<Rightarrow> 11 | leaf \<Rightarrow> 5 * length leaves)"
  by (cases part)
     (simp_all add: generateParticles_def Let_def filter_part_flowerParticles
        filter_part_stemParticles filter_part_leafParticles
        length_flowerParticles length_stemParticles length_leafParticles)

text \<open>
  Claim C3, as the code has it. \<^verbatim>\<open>generateParticles\<close> spawns one particle of part
  \<open>flower\<close> for each flower point, at the point's position and with its colour, and
  these come first in the list; it also spawns 11 particles of part \<open>stem\<close> and 5
  particles of part \<open>leaf\<close> for each leaf, so the particle count after the call is the
  number of flower points plus 11 plus five times the number of leaves. The phase
  after the call is \<open>scatter\<close>.
\<close>

theorem generateParticles_count:
  fixes s m h leaves fps volume pitch now
  defines "s' \<equiv> generateParticles s m h leaves fps volume pitch now"
  shows "length (particles s') = length fps + 11 + 5 * length leaves
       \<and> length (filter (\<lambda>p. p_partType p = Some flower) (particles s')) = length fps
       \<and> length (filter (\<lambda>p. p_partType p = Some stem) (particles s')) = 11
       \<and> length (filter (\<lambda>p. p_partType p = Some leaf) (particles s')) = 5 * length leaves
       \<and> map (\<lambda>p. (p_x p, p_y p, p_color p, p_partType p)) (take (length fps) (particles s'))
           = map (\<lambda>pt. (fp_x pt, fp_y pt, fp_color pt, Some flower)) fps
       \<and> phase s' = scatter"
  unfolding s'_def
  by (simp add: generateParticles_length generateParticles_phase generateParticles_part_count)
     (simp add: generateParticles_def Let_def length_flowerParticles flowerParticles_points)

text \<open>
  Claim C3 as stated fails on the count: one flower point and no leaf give 12
  particles, the flower particle and the 11 of the stem.
\<close>

theorem generateParticles_count_counterexample:
  "length (particles (generateParticles (ParticleSystem_new \<lparr>point_x = 0, point_y = 0\<rparr>)
       Math0 100 [] [\<lparr>fp_x = 1, fp_y = 2, fp_color = ''red''\<rparr>] 50 440 0)) = 12
   \<and> length (particles (generateParticles (ParticleSystem_new \<lparr>point_x = 0, point_y = 0\<rparr>)
       Math0 100 [] [\<lparr>fp_x = 1, fp_y = 2, fp_color = ''red''\<rparr>] 50 440 0))
      \<noteq> length [\<lparr>fp_x = 1, fp_y = 2, fp_color = ''red''\<rparr>]"
  by (simp add: generateParticles_length)

section \<open>Properties of the arrival test\<close>

lemma arrivedLoop_iff:
  "arrivedLoop ps \<longleftrightarrow> (\<forall>p \<in> set ps. distanceToTarget p \<le> arrivalThreshold)"
  by (induction ps) (auto simp: Let_def distanceToTarget_def)

text \<open>
  Claim C8. \<^verbatim>\<open>allParticlesArrived()\<close> returns true if and only if the phase is
  \<open>converge\<close> and every particle's distance to its target is at most the arrival
  threshold of 5 pixels; in particular it returns false while the phase is \<open>scatter\<close>.
\<close>

theorem allParticlesArrived_iff:
  "(allParticlesArrived s \<longleftrightarrow>
      phase s = converge \<and> (\<forall>p \<in> set (particles s). distanceToTarget p \<le> 5))
   \<and> (phase s = scatter \<longrightarrow> \<not> allParticlesArrived s)"
  by (simp add: allParticlesArrived_def arrivedLoop_iff arrivalThreshold_def)

theorem allParticlesArrived_iff_witness:
  "allParticlesArrived
     \<lparr>particles = [spawn Math0 0 1 0 \<lparr>point_x = 0, point_y = 0\<rparr> 0 3 4 ''red'' flower None],
      phase = converge, seedPosition = \<lparr>point_x = 0, point_y = 0\<rparr>\<rparr>
   \<and> \<not> allParticlesArrived
     \<lparr>particles = [spawn Math0 0 1 0 \<lparr>point_x = 0, point_y = 0\<rparr> 0 3 4 ''red'' flower None],
      phase = scatter, seedPosition = \<lparr>point_x = 0, point_y = 0\<rparr>\<rparr>
   \<and> \<not> allParticlesArrived
     \<lparr>particles = [spawn Math0 0 1 0 \<lparr>point_x = 0, point_y = 0\<rparr> 0 6 8 ''red'' flower None],
      phase = converge, seedPosition = \<lparr>point_x = 0, point_y = 0\<rparr>\<rparr>"
  using allParticlesArrived_iff [of "\<lparr>particles = [spawn Math0 0 1 0 \<lparr>point_x = 0, point_y = 0\<rparr> 0 3 4 ''red'' flower None],
      phase = converge, seedPosition = \<lparr>point_x = 0, point_y = 0\<rparr>\<rparr>"]
    allParticlesArrived_iff [of "\<lparr>particles = [spawn Math0 0 1 0 \<lparr>point_x = 0, point_y = 0\<rparr> 0 3 4 ''red'' flower None],
      phase = scatter, seedPosition = \<lparr>point_x = 0, point_y = 0\<rparr>\<rparr>"]
    allParticlesArrived_iff [of "\<lparr>particles = [spawn Math0 0 1 0 \<lparr>point_x = 0, point_y = 0\<rparr> 0 6 8 ''red'' flower None],
      phase = converge, seedPosition = \<lparr>point_x = 0, point_y = 0\<rparr>\<rparr>"]
    real_sqrt_abs [of 5] real_sqrt_abs [of 10]
  by (simp add: distanceToTarget_def spawn_fields)

section \<open>Properties of an empty particle system\<close>

lemma update_empty:
  assumes "particles s = []" "phase s = scatter"
  shows "particles (ParticleSystem_update s dt now) = []"
    and "phase (ParticleSystem_update s dt now) = scatter"
  using assms
  by (simp_all add: ParticleSystem_update_def updateScatterPhase_def avgAlpha_def Let_def)

lemma fold_update_empty:
  assumes "particles s = []" "phase s = scatter"
  shows "particles (fold (\<lambda>(dt, now) s. ParticleSystem_update s dt now) ticks s) = []
       \<and> phase (fold (\<lambda>(dt, now) s. ParticleSystem_update s dt now) ticks s) = scatter"
  using assms
proof (induction ticks arbitrary: s)
  case Nil
  then show ?case by simp
next
  case (Cons t ticks)
  obtain dt now where t: "t = (dt, now)" by (cases t)
  from update_empty [OF Cons.prems]
  have "particles (ParticleSystem_update s dt now) = []" "phase (ParticleSystem_update s dt now) = scatter"
    by simp_all
  from Cons.IH [OF this] show ?case by (simp add: t)
qed

text \<open>
  Claim C10. After construction or after \<^verbatim>\<open>reset()\<close>, and before any
  \<^verbatim>\<open>generateParticles\<close>, every sequence of \<^verbatim>\<open>update()\<close> calls leaves the particle
  list empty and the phase at \<open>scatter\<close> (the mean alpha of no particle is \<^verbatim>\<open>NaN\<close>,
  which is not below the threshold), and \<^verbatim>\<open>allParticlesArrived()\<close> returns false.
\<close>

theorem empty_system_stays_scatter:
  assumes "s0 = ParticleSystem_new seed \<or> s0 = ParticleSystem_reset s"
  shows "phase (fold (\<lambda>(dt, now) s. ParticleSystem_update s dt now) ticks s0) = scatter
       \<and> particles (fold (\<lambda>(dt, now) s. ParticleSystem_update s dt now) ticks s0) = []
       \<and> \<not> allParticlesArrived (fold (\<lambda>(dt, now) s. ParticleSystem_update s dt now) ticks s0)"
proof -
  from assms have "particles s0 = []" "phase s0 = scatter"
    by (auto simp: ParticleSystem_new_def ParticleSystem_reset_def)
  from fold_update_empty [OF this, of ticks] show ?thesis
    by (simp add: allParticlesArrived_def)
qed

theorem empty_system_stays_scatter_witness:
  "phase (fold (\<lambda>(dt, now) s. ParticleSystem_update s dt now) [(1 / 60, 0), (1 / 60, 16), (0, 16)]
      (ParticleSystem_new \<lparr>point_x = 400, point_y = 550\<rparr>)) = scatter
   \<and> \<not> allParticlesArrived (fold (\<lambda>(dt, now) s. ParticleSystem_update s dt now) [(1 / 60, 0), (1 / 60, 16), (0, 16)]
      (ParticleSystem_new \<lparr>point_x = 400, point_y = 550\<rparr>))"
  using empty_system_stays_scatter [where ?s0.0 = "ParticleSystem_new \<lparr>point_x = 400, point_y = 550\<rparr>"
      and seed = "\<lparr>point_x = 400, point_y = 550\<rparr>" and ticks = "[(1 / 60, 0), (1 / 60, 16), (0, 16)]"]
  by simp

section \<open>Properties of the converge phase\<close>













section \<open>Properties of the scatter phase\<close>

lemma scatterParticle_fields:
  "p_vy (scatterParticle dt p) = fl (p_vy p + fl (fl (0.5 * dt) * 60))"
  "p_alpha (scatterParticle dt p) = max 0 (fl (p_alpha p - fl (fl 0.3 * dt)))"
  "p_life (scatterParticle dt p) = max 0 (fl (p_life p - fl (dt / p_maxLife p)))"
  "p_maxLife (scatterParticle dt p) = p_maxLife p"
  by (simp_all add: scatterParticle_def Let_def gravity_def alphaDecayRate_def)

lemma convergeParticle_maxLife:
  "p_maxLife (convergeParticle dt p) = p_maxLife p"
  by (simp add: convergeParticle_def Let_def)

lemma fl_max_0: "fl (max 0 (fl x)) = max 0 (fl x)"
  by (simp add: max_def)

lemma fl_three_tenths: "1 / 4 \<le> fl 0.3" "fl 0.3 \<le> 1"
  using fl_mono [of "1 / 4" "0.3"] fl_mono [of "0.3" 1] by simp_all

lemma alphaThreshold_pos: "0 < alphaThreshold"
  using fl_three_tenths(1) by (simp add: alphaThreshold_def)

lemma foldl_alpha_zero:
  assumes "\<And>p. p \<in> set ps \<Longrightarrow> p_alpha p = 0"
  shows "foldl (\<lambda>sum p. fl (sum + p_alpha p)) 0 ps = 0"
  using assms by (induction ps) simp_all

lemma avgAlpha_zero:
  assumes "ps \<noteq> []" and "\<And>p. p \<in> set ps \<Longrightarrow> p_alpha p = 0"
  shows "avgAlpha ps = Some 0"
  using assms(1) foldl_alpha_zero [of ps, OF assms(2)] by (simp add: avgAlpha_def)

lemma updateScatterPhase_particles:
  "particles (updateScatterPhase s dt) = map (scatterParticle dt) (particles s)"
  by (simp add: updateScatterPhase_def Let_def split: option.splits)

lemma ParticleSystem_update_scatter_particles:
  "phase s = scatter \<Longrightarrow>
   particles (ParticleSystem_update s dt now) = map (scatterParticle dt) (particles s)"
  by (simp add: ParticleSystem_update_def updateScatterPhase_particles)

lemma updateScatterPhase_inv:
  assumes c: "\<And>p. p \<in> set (particles s) \<Longrightarrow> p_alpha p = c"
    and ph: "phase (updateScatterPhase s dt) = scatter"
  shows "\<exists>c'. 0 < c' \<and> fl c' = c'
           \<and> (\<forall>p \<in> set (particles (updateScatterPhase s dt)).
                 p_alpha p = c' \<and> fl (p_vy p) = p_vy p)"
proof (cases "particles s = []")
  case True
  then show ?thesis by (intro exI [of _ 1]) (simp add: updateScatterPhase_particles)
next
  case False
  define c' where "c' = max 0 (fl (c - fl (fl 0.3 * dt)))"
  have all: "\<And>p. p \<in> set (map (scatterParticle dt) (particles s)) \<Longrightarrow> p_alpha p = c'"
    using c by (auto simp: scatterParticle_fields c'_def)
  have vy: "\<And>p. p \<in> set (map (scatterParticle dt) (particles s)) \<Longrightarrow> fl (p_vy p) = p_vy p"
    by (auto simp: scatterParticle_fields)
  from False have ne: "map (scatterParticle dt) (particles s) \<noteq> []" by simp
  have "c' \<noteq> 0"
  proof
    assume "c' = 0"
    with all have "avgAlpha (map (scatterParticle dt) (particles s)) = Some 0"
      by (intro avgAlpha_zero [OF ne]) simp
    then have "phase (updateScatterPhase s dt) = converge"
      using alphaThreshold_pos by (simp add: updateScatterPhase_def Let_def)
    with ph show False by simp
  qed
  moreover have "0 \<le> c'" by (simp add: c'_def)
  ultimately have "0 < c'" by simp
  moreover have "fl c' = c'" unfolding c'_def by (rule fl_max_0)
  ultimately show ?thesis using all vy by (auto simp: updateScatterPhase_particles)
qed

lemma updateConvergePhase_phase:
  "phase (updateConvergePhase s dt) = phase s"
  by (simp add: updateConvergePhase_def)

lemma reachable_invariant:
  assumes "reachable s"
  shows "(phase s = scatter \<longrightarrow>
            (\<exists>c. 0 < c \<and> fl c = c
               \<and> (\<forall>p \<in> set (particles s). p_alpha p = c \<and> fl (p_vy p) = p_vy p)))
       \<and> (\<forall>p \<in> set (particles s). 3 \<le> p_maxLife p)"
  using assms
proof (induction rule: reachable.induct)
  case (reachable_new seed)
  show ?case by (intro conjI impI exI [of _ 1]) (simp_all add: ParticleSystem_new_def)
next
  case (reachable_generate s m stemHeight leaves flowerPoints volume pitch currentTime)
  have "p_alpha p = 1 \<and> fl (p_vy p) = p_vy p \<and> 3 \<le> p_maxLife p"
    if "p \<in> set (particles (generateParticles s m stemHeight leaves flowerPoints volume pitch currentTime))"
    for p
  proof -
    from generateParticles_spawned [OF that] obtain n b v x0 y0 col part idx
      where p: "p = spawn m n b v (seedPosition s) currentTime x0 y0 col part idx" by blast
    have "0 \<le> Math_random m (n + 3) * 2" using reachable_generate.hyps(2) [of "n + 3"] by simp
    then have "0 \<le> fl (Math_random m (n + 3) * 2)" by (rule fl_nonneg)
    then have "fl 3 \<le> fl (3 + fl (Math_random m (n + 3) * 2))" by (intro fl_mono) simp
    then show ?thesis by (simp add: p spawn_fields spawn_vy_double)
  qed
  then show ?case by (intro conjI impI exI [of _ 1]) auto
next
  case (reachable_update s deltaTime currentTime)
  show ?case
  proof (cases "phase s")
    case scatter
    with reachable_update.IH obtain c where c: "\<And>p. p \<in> set (particles s) \<Longrightarrow> p_alpha p = c"
      by blast
    have upd: "ParticleSystem_update s deltaTime currentTime = updateScatterPhase s deltaTime"
      using scatter by (simp add: ParticleSystem_update_def)
    have "\<forall>p \<in> set (particles (updateScatterPhase s deltaTime)). 3 \<le> p_maxLife p"
      using reachable_update.IH by (auto simp: updateScatterPhase_particles scatterParticle_fields)
    then show ?thesis
      unfolding upd using updateScatterPhase_inv [of s c deltaTime, OF c] by blast
  next
    case converge
    then have upd: "ParticleSystem_update s deltaTime currentTime = updateConvergePhase s deltaTime"
      by (simp add: ParticleSystem_update_def)
    show ?thesis
      unfolding upd using converge reachable_update.IH
      by (auto simp: updateConvergePhase_phase updateConvergePhase_def convergeParticle_maxLife)
  qed
next
  case (reachable_reset s)
  show ?case by (intro conjI impI exI [of _ 1]) (simp_all add: ParticleSystem_reset_def)
qed

lemma fl_strict_above:
  assumes "\<bar>x\<bar> \<le> 2 ^ 20" "x + 1 / 2 ^ 32 \<le> y"
  shows "x < fl y"
proof -
  define n where "n = \<lfloor>x * 2 ^ 32\<rfloor> + 1"
  define b where "b = of_int n / (2 ^ 32 :: real)"
  have fl1: "of_int \<lfloor>x * 2 ^ 32\<rfloor> \<le> x * 2 ^ 32" "x * 2 ^ 32 < of_int \<lfloor>x * 2 ^ 32\<rfloor> + 1"
    by linarith+
  have xb: "x < b" using fl1(2) by (simp add: b_def n_def field_simps)
  have bx: "b \<le> x + 1 / 2 ^ 32" using fl1(1) by (simp add: b_def n_def field_simps)
  have "\<bar>x * 2 ^ 32\<bar> \<le> 2 ^ 20 * 2 ^ 32"
    using assms(1) by (simp add: abs_mult)
  then have lo: "real_of_int (- (2 ^ 52)) \<le> x * 2 ^ 32"
    and hi: "x * 2 ^ 32 \<le> real_of_int (2 ^ 52)"
    by (simp_all add: abs_le_iff)
  have "- (2 ^ 52) \<le> \<lfloor>x * 2 ^ 32\<rfloor>" "\<lfloor>x * 2 ^ 32\<rfloor> \<le> 2 ^ 52"
    using floor_mono [OF lo] floor_mono [OF hi] by (simp_all only: floor_of_int)
  moreover have "\<bar>m + 1\<bar> \<le> 2 ^ 53" if "- (2 ^ 52) \<le> m" "m \<le> 2 ^ 52" for m :: int
    using that by simp
  ultimately have n: "\<bar>n\<bar> \<le> 2 ^ 53" unfolding n_def by blast
  have "b = of_int n * 2 powi (- 32)" by (simp add: b_def power_int_minus_divide)
  then have "fl b = b" using n by (intro fl_exact [of b n "- 32"]) simp_all
  moreover have "fl b \<le> fl y" using bx assms(2) by (intro fl_mono) simp
  ultimately show ?thesis using xb by simp
qed

lemma fl_strict_below:
  assumes "\<bar>x\<bar> \<le> 2 ^ 20" "y \<le> x - 1 / 2 ^ 32"
  shows "fl y < x"
proof -
  have "- x < fl (- y)" using assms by (intro fl_strict_above) simp_all
  then show ?thesis by (simp add: fl_minus)
qed

lemma fl_pow2_neg: "n \<le> 1074 \<Longrightarrow> fl (1 / 2 ^ n) = 1 / 2 ^ n"
  using fl_exact [of "1 / 2 ^ n" 1 "- int n"] by (simp add: power_int_minus_divide)

lemma gravity_step_nonneg:
  assumes "0 \<le> dt"
  shows "0 \<le> fl (fl (0.5 * dt) * 60)"
proof -
  have "0 \<le> fl (0.5 * dt)" using assms by (intro fl_nonneg) simp
  then show ?thesis by (intro fl_nonneg) simp
qed

lemma gravity_step_ge:
  assumes "1 / 2 ^ 36 \<le> dt"
  shows "1 / 2 ^ 32 \<le> fl (fl (0.5 * dt) * 60)"
proof -
  have e37: "fl (1 / 2 ^ 37) = 1 / 2 ^ 37" and e32: "fl (1 / 2 ^ 32) = 1 / 2 ^ 32"
    by (rule fl_pow2_neg, simp)+
  have "fl (1 / 2 ^ 37) \<le> fl (0.5 * dt)" using assms by (intro fl_mono) simp
  then have "1 / 2 ^ 37 \<le> fl (0.5 * dt)" by (simp only: e37)
  then have "1 / 2 ^ 32 \<le> fl (0.5 * dt) * 60" by simp
  then have "fl (1 / 2 ^ 32) \<le> fl (fl (0.5 * dt) * 60)" by (rule fl_mono)
  then show ?thesis by (simp only: e32)
qed

lemma alpha_step_nonneg:
  assumes "0 \<le> dt"
  shows "0 \<le> fl (fl 0.3 * dt)"
  using assms fl_three_tenths(1) by (intro fl_nonneg mult_nonneg_nonneg) simp_all

lemma alpha_step_ge:
  assumes "1 / 2 ^ 30 \<le> dt"
  shows "1 / 2 ^ 32 \<le> fl (fl 0.3 * dt)"
proof -
  have "1 / 4 * (1 / 2 ^ 30) \<le> fl 0.3 * dt"
    using assms fl_three_tenths(1) by (intro mult_mono) simp_all
  then have "1 / 2 ^ 32 \<le> fl 0.3 * dt" by simp
  then have "fl (1 / 2 ^ 32) \<le> fl (fl 0.3 * dt)" by (rule fl_mono)
  moreover have "fl (1 / 2 ^ 32) = 1 / 2 ^ 32" by (rule fl_pow2_neg) simp
  ultimately show ?thesis by (simp only:)
qed

lemma not_overflows: "\<bar>x\<bar> \<le> 2 ^ 1010 \<Longrightarrow> \<not> overflows x"
proof -
  have "(2::real) ^ 1010 < 2 ^ 1024 - 2 ^ 970" by simp
  then show "\<bar>x\<bar> \<le> 2 ^ 1010 \<Longrightarrow> \<not> overflows x" unfolding overflows_def by linarith
qed

lemma fl_abs_le_pow2:
  assumes "\<bar>x\<bar> \<le> 2 ^ n"
  shows "\<bar>fl x\<bar> \<le> 2 ^ n"
proof -
  have e: "fl (2 ^ n) = 2 ^ n" using fl_exact [of "2 ^ n" 1 "int n"] by simp
  from assms have hi: "x \<le> 2 ^ n" and lo: "- (2 ^ n) \<le> x" by (simp_all add: abs_le_iff)
  from fl_mono [OF hi] fl_mono [OF lo] show ?thesis
    unfolding fl_minus e by (simp add: abs_le_iff)
qed

lemma scatter_finite:
  assumes "0 < dt" "dt \<le> 2 ^ 1000" "\<bar>vy\<bar> \<le> 2 ^ 1000" "3 \<le> maxLife"
  shows "\<not> overflows (0.5 * dt)" "\<not> overflows (fl (0.5 * dt) * 60)"
    "\<not> overflows (vy + fl (fl (0.5 * dt) * 60))"
    "\<not> overflows (fl 0.3 * dt)" "\<not> overflows (dt / maxLife)"
proof -
  have h: "\<bar>0.5 * dt\<bar> \<le> 2 ^ 1000" using assms(1,2) by simp
  then show "\<not> overflows (0.5 * dt)" by (intro not_overflows) simp
  from h have g1: "\<bar>fl (0.5 * dt)\<bar> \<le> 2 ^ 1000" by (rule fl_abs_le_pow2)
  then have "\<bar>fl (0.5 * dt)\<bar> * 60 \<le> 2 ^ 1000 * 2 ^ 6" by (intro mult_mono) simp_all
  then have g2: "\<bar>fl (0.5 * dt) * 60\<bar> \<le> 2 ^ 1006" by (simp add: abs_mult)
  then show "\<not> overflows (fl (0.5 * dt) * 60)" by (intro not_overflows) simp
  from g2 have "\<bar>fl (fl (0.5 * dt) * 60)\<bar> \<le> 2 ^ 1006" by (rule fl_abs_le_pow2)
  with assms(3) have "\<bar>vy + fl (fl (0.5 * dt) * 60)\<bar> \<le> 2 ^ 1000 + 2 ^ 1006" by linarith
  then show "\<not> overflows (vy + fl (fl (0.5 * dt) * 60))" by (intro not_overflows) simp
  have "fl 0.3 * dt \<le> 1 * 2 ^ 1000"
    using fl_three_tenths assms(1,2) by (intro mult_mono) simp_all
  moreover have "0 \<le> fl 0.3 * dt" using fl_three_tenths(1) assms(1) by simp
  ultimately show "\<not> overflows (fl 0.3 * dt)" by (intro not_overflows) simp
  have "dt / maxLife \<le> dt / 1" using assms(1,4) by (intro divide_left_mono) simp_all
  moreover have "0 \<le> dt / maxLife" using assms(1,4) by simp
  ultimately show "\<not> overflows (dt / maxLife)" using assms(2) by (intro not_overflows) simp
qed

lemma spawn_Math0_vy:
  "p_vy (spawn Math0 n b v seed now x0 y0 col part idx) = fl (fl (v * fl (b * fl 0.8)) * 0.5)"
  by (simp add: spawn_def Let_def Math0_def)

lemma example_system:
  defines "s \<equiv> generateParticles (ParticleSystem_new \<lparr>point_x = 0, point_y = 0\<rparr>) Math0 100 [] [] 50 440 0"
  shows "reachable s" and "phase s = scatter" and "0 < length (particles s)"
    and "p_alpha (particles s ! 0) = 1"
    and "p_vy (particles s ! 0) = - (1080863910568919 / 2 ^ 52)"
proof -
  show "reachable s"
    unfolding s_def by (rule reachable_generate [OF reachable_new]) (simp add: Math0_def)
  show "phase s = scatter" unfolding s_def by (rule generateParticles_phase)
  show len: "0 < length (particles s)" by (simp add: s_def generateParticles_length)
  then have "particles s ! 0 \<in> set (particles s)" by simp
  from generateParticles_spawned [OF this [unfolded s_def]]
  show "p_alpha (particles s ! 0) = 1" by (auto simp: spawn_fields s_def)
  have B: "fl (1 + fl (fl (50 / 100) * 4)) = 3" by simp
  have e240: "fl (440 - 200) = 240" by simp
  have e04: "fl (240 / 600) = (3602879701896397 / 2 ^ 53)"
    by (rule fl_eq_intro [where k = "- 2" and n = "7205759403792794"]) (simp_all add: rne_def Let_def)
  have emm: "max 0 (min 1 (3602879701896397 / 2 ^ 53 :: real)) = 3602879701896397 / 2 ^ 53"
    by simp
  have eb1: "fl ((3602879701896397 / 2 ^ 53) - 0.5) = (- (900719925474099 / 2 ^ 53))"
    by (rule fl_eq_intro [where k = "- 4" and n = "- 7205759403792792"]) (simp_all add: rne_def Let_def)
  have eb2: "fl ((- (900719925474099 / 2 ^ 53)) * 2) = (- (900719925474099 / 2 ^ 52))"
    by (rule fl_eq_intro [where k = "- 3" and n = "- 7205759403792792"]) (simp_all add: rne_def Let_def)
  have e08: "fl (0.8) = (3602879701896397 / 2 ^ 52)"
    by (rule fl_eq_intro [where k = "- 1" and n = "7205759403792794"]) (simp_all add: rne_def Let_def)
  have esp: "fl (3 * (3602879701896397 / 2 ^ 52)) = (1351079888211149 / 2 ^ 49)"
    by (rule fl_eq_intro [where k = "1" and n = "5404319552844596"]) (simp_all add: rne_def Let_def)
  have ebs: "fl ((- (900719925474099 / 2 ^ 52)) * (1351079888211149 / 2 ^ 49)) = (- (1080863910568919 / 2 ^ 51))"
    by (rule fl_eq_intro [where k = "- 2" and n = "- 8646911284551352"]) (simp_all add: rne_def Let_def)
  have evy: "fl ((- (1080863910568919 / 2 ^ 51)) * 0.5) = (- (1080863910568919 / 2 ^ 52))"
    by (rule fl_eq_intro [where k = "- 3" and n = "- 8646911284551352"]) (simp_all add: rne_def Let_def)
  have "\<exists>y. particles s ! 0
      = spawn Math0 0 (fl (1 + fl (fl (50 / 100) * 4)))
          (fl (fl (max 0 (min 1 (fl (fl (440 - 200) / 600))) - 0.5) * 2))
          \<lparr>point_x = 0, point_y = 0\<rparr> 0 0 y ''rgb(70, 200, 160)'' stem None"
    unfolding s_def generateParticles_def Let_def flowerParticles_def stemParticles_def
      leafParticles_def
    by (simp add: ParticleSystem_new_def stemSegments_def nth_append upt_conv_Cons del: upt_Suc)
       (rule exI, rule refl)
  then obtain y where "particles s ! 0
      = spawn Math0 0 (fl (1 + fl (fl (50 / 100) * 4)))
          (fl (fl (max 0 (min 1 (fl (fl (440 - 200) / 600))) - 0.5) * 2))
          \<lparr>point_x = 0, point_y = 0\<rparr> 0 0 y ''rgb(70, 200, 160)'' stem None" ..
  then have "p_vy (particles s ! 0)
      = fl (fl (fl (fl (max 0 (min 1 (fl (fl (440 - 200) / 600))) - 0.5) * 2)
           * fl (fl (1 + fl (fl (50 / 100) * 4)) * fl 0.8)) * 0.5)"
    by (simp only: spawn_Math0_vy)
  also have "\<dots> = - (1080863910568919 / 2 ^ 52)"
    by (simp only: B e240 e04 emm eb1 eb2 e08 esp ebs evy)
  finally show "p_vy (particles s ! 0) = - (1080863910568919 / 2 ^ 52)" .
qed

text \<open>
  Claim C7, as the code has it. In the scatter phase of a particle system (one built
  and changed through its methods), one \<^verbatim>\<open>update\<close> with \<open>dt > 0\<close> sets every particle's
  \<open>vy\<close> to \<open>vy + 0.5 \<sqdot> dt \<sqdot> 60\<close>, its alpha to \<open>max 0 (alpha - 0.3 \<sqdot> dt)\<close> and its life to
  \<open>max 0 (life - dt / maxLife)\<close>, every operation rounded to binary64. So \<open>vy\<close> never
  decreases, alpha never increases, and alpha and life are never negative afterwards.
  \<open>vy\<close> strictly increases when \<open>dt \<ge> 2 ^ -36\<close> and \<open>|vy| \<le> 2 ^ 20\<close>; alpha strictly
  decreases when \<open>dt \<ge> 2 ^ -30\<close> and \<open>alpha \<le> 2 ^ 20\<close>. For a smaller \<open>dt\<close> the increment
  can be lost in the rounding. \<open>dt\<close> and \<open>vy\<close> are taken up to \<open>2 ^ 1000\<close>: there none of
  the products, the quotient and the sum of the step overflows (the last conjunct),
  and the two differences, each of a finite positive number and a smaller positive
  one, cannot.
\<close>

theorem scatter_step:
  fixes s :: ParticleSystem and dt now :: real and i :: nat
  assumes r: "reachable s" and ph: "phase s = scatter"
    and dt0: "0 < dt" and dtmax: "dt \<le> 2 ^ 1000" and len: "i < length (particles s)"
  defines "p \<equiv> particles s ! i"
      and "p' \<equiv> particles (ParticleSystem_update s dt now) ! i"
  assumes vymax: "\<bar>p_vy p\<bar> \<le> 2 ^ 1000"
  shows "length (particles (ParticleSystem_update s dt now)) = length (particles s)
       \<and> p_vy p' = fl (p_vy p + fl (fl (0.5 * dt) * 60)) \<and> p_vy p \<le> p_vy p'
       \<and> p_alpha p' = max 0 (fl (p_alpha p - fl (fl 0.3 * dt)))
       \<and> p_alpha p' \<le> p_alpha p \<and> 0 \<le> p_alpha p'
       \<and> 0 < p_maxLife p \<and> p_life p' = max 0 (fl (p_life p - fl (dt / p_maxLife p)))
       \<and> 0 \<le> p_life p'
       \<and> (1 / 2 ^ 36 \<le> dt \<and> \<bar>p_vy p\<bar> \<le> 2 ^ 20 \<longrightarrow> p_vy p < p_vy p')
       \<and> (1 / 2 ^ 30 \<le> dt \<and> p_alpha p \<le> 2 ^ 20 \<longrightarrow> p_alpha p' < p_alpha p)
       \<and> \<not> (overflows (0.5 * dt) \<or> overflows (fl (0.5 * dt) * 60)
              \<or> overflows (p_vy p + fl (fl (0.5 * dt) * 60))
              \<or> overflows (fl 0.3 * dt) \<or> overflows (dt / p_maxLife p))"
proof -
  have mem: "p \<in> set (particles s)" using len by (simp add: p_def)
  from reachable_invariant [OF r] ph mem
  have a: "0 < p_alpha p" "fl (p_alpha p) = p_alpha p" and v: "fl (p_vy p) = p_vy p"
    and l: "3 \<le> p_maxLife p" by auto
  have p': "p' = scatterParticle dt p"
    using ph len by (simp add: p'_def p_def ParticleSystem_update_scatter_particles)
  have lens: "length (particles (ParticleSystem_update s dt now)) = length (particles s)"
    using ph by (simp add: ParticleSystem_update_scatter_particles)
  have dt: "0 \<le> dt" using dt0 by simp
  have "fl (p_vy p) \<le> fl (p_vy p + fl (fl (0.5 * dt) * 60))"
    using gravity_step_nonneg [OF dt] by (intro fl_mono) simp
  then have vy_le: "p_vy p \<le> fl (p_vy p + fl (fl (0.5 * dt) * 60))" by (simp only: v)
  have "fl (p_alpha p - fl (fl 0.3 * dt)) \<le> fl (p_alpha p)"
    using alpha_step_nonneg [OF dt] by (intro fl_mono) simp
  then have al_le: "max 0 (fl (p_alpha p - fl (fl 0.3 * dt))) \<le> p_alpha p"
    using a by simp
  have vy_lt: "p_vy p < fl (p_vy p + fl (fl (0.5 * dt) * 60))"
    if "1 / 2 ^ 36 \<le> dt" "\<bar>p_vy p\<bar> \<le> 2 ^ 20"
    using gravity_step_ge [OF that(1)] that(2) by (intro fl_strict_above) simp_all
  have al_lt: "max 0 (fl (p_alpha p - fl (fl 0.3 * dt))) < p_alpha p"
    if "1 / 2 ^ 30 \<le> dt" "p_alpha p \<le> 2 ^ 20"
  proof -
    have "fl (p_alpha p - fl (fl 0.3 * dt)) < p_alpha p"
      using alpha_step_ge [OF that(1)] that(2) a(1) by (intro fl_strict_below) simp_all
    with a(1) show ?thesis by simp
  qed
  have fin: "\<not> (overflows (0.5 * dt) \<or> overflows (fl (0.5 * dt) * 60)
              \<or> overflows (p_vy p + fl (fl (0.5 * dt) * 60))
              \<or> overflows (fl 0.3 * dt) \<or> overflows (dt / p_maxLife p))"
    using scatter_finite [OF dt0 dtmax vymax l] by blast
  have "length (particles (ParticleSystem_update s dt now)) = length (particles s)
       \<and> p_vy p' = fl (p_vy p + fl (fl (0.5 * dt) * 60)) \<and> p_vy p \<le> p_vy p'
       \<and> p_alpha p' = max 0 (fl (p_alpha p - fl (fl 0.3 * dt)))
       \<and> p_alpha p' \<le> p_alpha p \<and> 0 \<le> p_alpha p'
       \<and> 0 < p_maxLife p \<and> p_life p' = max 0 (fl (p_life p - fl (dt / p_maxLife p)))
       \<and> 0 \<le> p_life p'
       \<and> (1 / 2 ^ 36 \<le> dt \<and> \<bar>p_vy p\<bar> \<le> 2 ^ 20 \<longrightarrow> p_vy p < p_vy p')
       \<and> (1 / 2 ^ 30 \<le> dt \<and> p_alpha p \<le> 2 ^ 20 \<longrightarrow> p_alpha p' < p_alpha p)"
    unfolding p' using lens l vy_le al_le vy_lt al_lt
    by (simp add: scatterParticle_fields)
  with fin show ?thesis by blast
qed

theorem scatter_step_witness:
  "reachable (generateParticles (ParticleSystem_new \<lparr>point_x = 0, point_y = 0\<rparr>) Math0 100 [] [] 50 440 0)
   \<and> phase (generateParticles (ParticleSystem_new \<lparr>point_x = 0, point_y = 0\<rparr>) Math0 100 [] [] 50 440 0) = scatter
   \<and> (0::real) < 1 / 60 \<and> (1::real) / 60 \<le> 2 ^ 1000
   \<and> (1::real) / 2 ^ 30 \<le> 1 / 60
   \<and> 0 < length (particles (generateParticles (ParticleSystem_new \<lparr>point_x = 0, point_y = 0\<rparr>) Math0 100 [] [] 50 440 0))
   \<and> p_vy (particles (generateParticles (ParticleSystem_new \<lparr>point_x = 0, point_y = 0\<rparr>) Math0 100 [] [] 50 440 0) ! 0)
       = - (1080863910568919 / 2 ^ 52)
   \<and> p_alpha (particles (generateParticles (ParticleSystem_new \<lparr>point_x = 0, point_y = 0\<rparr>) Math0 100 [] [] 50 440 0) ! 0) = 1
   \<and> p_alpha (particles (ParticleSystem_update
         (generateParticles (ParticleSystem_new \<lparr>point_x = 0, point_y = 0\<rparr>) Math0 100 [] [] 50 440 0)
         (1 / 60) 0) ! 0)
       < p_alpha (particles (generateParticles (ParticleSystem_new \<lparr>point_x = 0, point_y = 0\<rparr>) Math0 100 [] [] 50 440 0) ! 0)
   \<and> p_vy (particles (generateParticles (ParticleSystem_new \<lparr>point_x = 0, point_y = 0\<rparr>) Math0 100 [] [] 50 440 0) ! 0)
       < p_vy (particles (ParticleSystem_update
         (generateParticles (ParticleSystem_new \<lparr>point_x = 0, point_y = 0\<rparr>) Math0 100 [] [] 50 440 0)
         (1 / 60) 0) ! 0)"
proof -
  let ?s = "generateParticles (ParticleSystem_new \<lparr>point_x = 0, point_y = 0\<rparr>) Math0 100 [] [] 50 440 0"
  note ex = example_system
  have dt: "(0::real) < 1 / 60" "(1::real) / 60 \<le> 2 ^ 1000" by simp_all
  have v1: "\<bar>p_vy (particles ?s ! 0)\<bar> \<le> 2 ^ 1000" unfolding ex(5) by simp
  have v2: "\<bar>p_vy (particles ?s ! 0)\<bar> \<le> 2 ^ 20" unfolding ex(5) by simp
  note step = scatter_step [OF ex(1) ex(2) dt ex(3) v1, of 0]
  have c1: "(1::real) / 2 ^ 30 \<le> 1 / 60" "(1::real) / 2 ^ 36 \<le> 1 / 60" by simp_all
  have c2: "p_alpha (particles ?s ! 0) \<le> 2 ^ 20" by (simp add: ex(4))
  from step c1 c2
  have lt: "p_alpha (particles (ParticleSystem_update ?s (1 / 60) 0) ! 0) < p_alpha (particles ?s ! 0)"
    by blast
  from step c1 v2
  have gt: "p_vy (particles ?s ! 0) < p_vy (particles (ParticleSystem_update ?s (1 / 60) 0) ! 0)"
    by blast
  from ex dt c1 lt gt show ?thesis by blast
qed

text \<open>
  Claim C7 as stated fails on the strictness: with \<open>dt = 2 ^ -70\<close>, right after
  \<^verbatim>\<open>generateParticles\<close>, the alpha of the first particle stays 1, since
  \<open>1 - 0.3 \<sqdot> 2 ^ -70\<close> rounds to 1, and its \<open>vy\<close> stays -0.24, since
  \<open>-0.24 + 0.5 \<sqdot> 2 ^ -70 \<sqdot> 60\<close> rounds to -0.24.
\<close>

theorem scatter_step_not_strict:
  "reachable (generateParticles (ParticleSystem_new \<lparr>point_x = 0, point_y = 0\<rparr>) Math0 100 [] [] 50 440 0)
   \<and> phase (generateParticles (ParticleSystem_new \<lparr>point_x = 0, point_y = 0\<rparr>) Math0 100 [] [] 50 440 0) = scatter
   \<and> (0::real) < 1 / 2 ^ 70
   \<and> p_alpha (particles (generateParticles (ParticleSystem_new \<lparr>point_x = 0, point_y = 0\<rparr>) Math0 100 [] [] 50 440 0) ! 0) = 1
   \<and> p_alpha (particles (ParticleSystem_update
         (generateParticles (ParticleSystem_new \<lparr>point_x = 0, point_y = 0\<rparr>) Math0 100 [] [] 50 440 0)
         (1 / 2 ^ 70) 0) ! 0) = 1
   \<and> p_vy (particles (generateParticles (ParticleSystem_new \<lparr>point_x = 0, point_y = 0\<rparr>) Math0 100 [] [] 50 440 0) ! 0)
       = - (1080863910568919 / 2 ^ 52)
   \<and> p_vy (particles (ParticleSystem_update
         (generateParticles (ParticleSystem_new \<lparr>point_x = 0, point_y = 0\<rparr>) Math0 100 [] [] 50 440 0)
         (1 / 2 ^ 70) 0) ! 0) = - (1080863910568919 / 2 ^ 52)"
proof -
  let ?s = "generateParticles (ParticleSystem_new \<lparr>point_x = 0, point_y = 0\<rparr>) Math0 100 [] [] 50 440 0"
  note ex = example_system
  define d where "d = fl (fl 0.3 * (1 / 2 ^ 70))"
  have "fl 0.3 * (1 / 2 ^ 70) \<le> 1 * (1 / 2 ^ 70)"
    using fl_three_tenths(2) by (intro mult_right_mono) simp_all
  then have "d \<le> fl (1 / 2 ^ 70)" unfolding d_def by (intro fl_mono) simp
  moreover have "fl (1 / 2 ^ 70) = 1 / 2 ^ 70" by (rule fl_pow2_neg) simp
  ultimately have d1: "d \<le> 1 / 2 ^ 70" by (simp only:)
  have d0: "0 \<le> d" unfolding d_def by (rule alpha_step_nonneg) simp
  have tie: "fl (1 - 1 / 2 ^ 54) = 1"
    by (rule fl_eq_intro [where k = "- 1" and n = "2 ^ 53"]) (simp_all add: rne_def Let_def)
  have "(1::real) / 2 ^ 70 \<le> 1 / 2 ^ 54" by simp
  with d1 have "1 - 1 / 2 ^ 54 \<le> 1 - d" by simp
  then have "fl (1 - 1 / 2 ^ 54) \<le> fl (1 - d)" by (rule fl_mono)
  then have "1 \<le> fl (1 - d)" by (simp only: tie)
  moreover have "fl (1 - d) \<le> fl 1" using d0 by (intro fl_mono) simp
  ultimately have one: "fl (1 - d) = 1" by simp
  have sp: "particles (ParticleSystem_update ?s (1 / 2 ^ 70) 0) ! 0
      = scatterParticle (1 / 2 ^ 70) (particles ?s ! 0)"
    using ex(2,3) by (simp add: ParticleSystem_update_scatter_particles)
  have "p_alpha (scatterParticle (1 / 2 ^ 70) (particles ?s ! 0)) = max 0 (fl (1 - d))"
    by (simp only: scatterParticle_fields ex(4) d_def)
  then have al: "p_alpha (particles (ParticleSystem_update ?s (1 / 2 ^ 70) 0) ! 0) = 1"
    by (simp only: sp one)
  have g1: "fl (0.5 * (1 / 2 ^ 70)) = 1 / 2 ^ 71"
    using fl_pow2_neg [of 71] by simp
  have g2: "fl (1 / 2 ^ 71 * 60) = 15 / 2 ^ 69"
    using fl_exact [of "15 / 2 ^ 69" 15 "- 69"] by (simp add: power_int_minus_divide)
  have eg: "fl ((- (1080863910568919 / 2 ^ 52)) + 15 / 2 ^ 69) = (- (1080863910568919 / 2 ^ 52))"
    by (rule fl_eq_intro [where k = "- 3" and n = "- 8646911284551352"]) (simp_all add: rne_def Let_def)
  have "p_vy (scatterParticle (1 / 2 ^ 70) (particles ?s ! 0))
      = fl (- (1080863910568919 / 2 ^ 52) + fl (fl (0.5 * (1 / 2 ^ 70)) * 60))"
    by (simp only: scatterParticle_fields ex(5))
  also have "\<dots> = - (1080863910568919 / 2 ^ 52)" by (simp only: g1 g2 eg)
  finally have vy: "p_vy (particles (ParticleSystem_update ?s (1 / 2 ^ 70) 0) ! 0)
      = - (1080863910568919 / 2 ^ 52)"
    by (simp only: sp)
  have "(0::real) < 1 / 2 ^ 70" by simp
  with ex al vy show ?thesis by blast
qed

section \<open>Properties of the rose curve\<close>




















section \<open>Properties of the pitch estimator\<close>

lemma foldl_abs_sum:
  "foldl (\<lambda>sum v. sum + \<bar>v\<bar>) a xs = a + sum_list (map abs xs)" for a :: real
  by (induction xs arbitrary: a) simp_all

lemma sumAbs_sum_list: "sumAbs xs = sum_list (map abs xs)"
  by (simp add: sumAbs_def foldl_abs_sum)

lemma abs_normalized_sample:
  "\<bar>(real (unat b) - 128) / 128\<bar> = real_of_int \<bar>int (unat b) - 128\<bar> / 128"
proof -
  have "real (unat b) - 128 = real_of_int (int (unat b) - 128)" by simp
  then have "\<bar>(real (unat b) - 128) / 128\<bar> = \<bar>real_of_int (int (unat b) - 128)\<bar> / 128"
    by (simp only: abs_divide)
  then show ?thesis by (simp only: of_int_abs abs_numeral)
qed

lemma sum_list_abs_normalizeBuffer:
  "sum_list (map abs (normalizeBuffer buffer))
     = real_of_int (sum_list (map (\<lambda>b. \<bar>int (unat b) - 128\<bar>) buffer)) / 128"
proof (induction buffer)
  case Nil
  show ?case by (simp add: normalizeBuffer_def)
next
  case (Cons b buffer)
  have "sum_list (map abs (normalizeBuffer (b # buffer)))
        = \<bar>(real (unat b) - 128) / 128\<bar> + sum_list (map abs (normalizeBuffer buffer))"
    by (simp add: normalizeBuffer_def)
  also have "\<dots> = real_of_int \<bar>int (unat b) - 128\<bar> / 128
        + real_of_int (sum_list (map (\<lambda>b. \<bar>int (unat b) - 128\<bar>) buffer)) / 128"
    by (simp only: abs_normalized_sample Cons.IH)
  also have "\<dots> = real_of_int (sum_list (map (\<lambda>b. \<bar>int (unat b) - 128\<bar>) (b # buffer))) / 128"
    by (simp add: add_divide_distrib)
  finally show ?case .
qed

lemma sumAbs_silent_iff:
  "sumAbs (normalizeBuffer buffer) < 0.01 \<longleftrightarrow> sum_list (map (\<lambda>b. \<bar>int (unat b) - 128\<bar>) buffer) \<le> 1"
proof -
  define n where "n = sum_list (map (\<lambda>b. \<bar>int (unat b) - 128\<bar>) buffer)"
  have "real_of_int n / 128 < 1 / 100 \<longleftrightarrow> n \<le> 1"
  proof
    assume "real_of_int n / 128 < 1 / 100"
    then have "real_of_int n < 2" by simp
    then show "n \<le> 1" by linarith
  next
    assume "n \<le> 1"
    then have "real_of_int n \<le> 1" by linarith
    then show "real_of_int n / 128 < 1 / 100" by simp
  qed
  then show ?thesis
    by (simp add: sumAbs_sum_list sum_list_abs_normalizeBuffer n_def)
qed

lemma mean_le_sum:
  assumes "buffer \<noteq> []"
  shows "meanAbsAmplitude buffer \<le> sumAbs (normalizeBuffer buffer)"
proof -
  have nn: "0 \<le> sum_list (map abs (normalizeBuffer buffer))"
    by (rule sum_list_nonneg) auto
  have "1 \<le> real (length buffer)" using assms by (cases buffer) simp_all
  then have "sum_list (map abs (normalizeBuffer buffer)) / real (length buffer)
           \<le> sum_list (map abs (normalizeBuffer buffer)) / 1"
    using nn assms by (intro divide_left_mono) simp_all
  then show ?thesis by (simp add: meanAbsAmplitude_def sumAbs_sum_list)
qed

lemma fold_searchStep_searched:
  "snd (snd (snd (fold (searchStep cs) lags (m, b, f, vs)))) = vs @ lags"
proof (induction lags arbitrary: m b f vs)
  case Nil
  show ?case by simp
next
  case (Cons lag lags)
  obtain m' b' f' where "searchStep cs lag (m, b, f, vs) = (m', b', f', vs @ [lag])"
    by (cases "0 \<le> lag \<and> cs ! nat lag > m") (simp_all add: searchStep_def)
  then show ?case using Cons.IH [of m' b' f' "vs @ [lag]"] by simp
qed

lemma autoCorrelateRun_silent:
  assumes "sumAbs (normalizeBuffer buffer) < 0.01"
  shows "autoCorrelateRun buffer sampleRate
       = \<lparr>run_result = 0, run_correlations = None, run_searched = []\<rparr>"
  using assms by (simp add: autoCorrelateRun_def Let_def)

lemma autoCorrelateRun_loud:
  assumes "\<not> sumAbs (normalizeBuffer buffer) < 0.01"
  shows "run_searched (autoCorrelateRun buffer sampleRate)
           = [\<lfloor>fl (sampleRate / 1000)\<rfloor> .. min \<lfloor>fl (sampleRate / 80)\<rfloor> (int (length buffer)) - 1]"
    and "run_correlations (autoCorrelateRun buffer sampleRate)
           = Some (correlations (normalizeBuffer buffer))"
proof -
  let ?cs = "correlations (normalizeBuffer buffer)"
  let ?lags = "[\<lfloor>fl (sampleRate / 1000)\<rfloor> .. min \<lfloor>fl (sampleRate / 80)\<rfloor> (int (length ?cs)) - 1]"
  obtain m b f vs where st: "fold (searchStep ?cs) ?lags (0, 0, False, []) = (m, b, f, vs)"
    by (metis prod_cases4)
  from fold_searchStep_searched [of ?cs ?lags 0 0 False "[]"] have vs: "vs = ?lags"
    by (simp only: st snd_conv append_Nil)
  have len: "length ?cs = length buffer" by (simp add: correlations_def normalizeBuffer_def)
  show "run_searched (autoCorrelateRun buffer sampleRate)
      = [\<lfloor>fl (sampleRate / 1000)\<rfloor> .. min \<lfloor>fl (sampleRate / 80)\<rfloor> (int (length buffer)) - 1]"
    using assms unfolding autoCorrelateRun_def Let_def st
    by (simp add: vs len)
  show "run_correlations (autoCorrelateRun buffer sampleRate) = Some ?cs"
    using assms unfolding autoCorrelateRun_def Let_def st by simp
qed

text \<open>
  Claim C4, as the code has it. The silence test of \<^verbatim>\<open>autoCorrelate\<close> compares the
  sum of the absolute normalized amplitudes, not their mean, with 0.01. For every
  buffer whose sum is below 0.01 the estimator returns 0 from that test: no
  correlation is computed and no lag is searched. Such a buffer differs from the
  midpoint 128 in at most one sample and by at most 1, and its mean absolute amplitude
  is below 0.01 as well. For every other buffer the correlations are computed and
  every lag from \<open>\<lfloor>sampleRate / 1000\<rfloor>\<close> up to, and without,
  \<open>min \<lfloor>sampleRate / 80\<rfloor> length\<close> is searched, in this order.
\<close>

theorem autoCorrelate_silence:
  "(sumAbs (normalizeBuffer buffer) < 0.01 \<longrightarrow>
       autoCorrelate buffer sampleRate = 0
     \<and> run_searched (autoCorrelateRun buffer sampleRate) = []
     \<and> run_correlations (autoCorrelateRun buffer sampleRate) = None
     \<and> sum_list (map (\<lambda>b. \<bar>int (unat b) - 128\<bar>) buffer) \<le> 1
     \<and> (buffer = [] \<or> meanAbsAmplitude buffer < 0.01))
   \<and> (\<not> sumAbs (normalizeBuffer buffer) < 0.01 \<longrightarrow>
       run_searched (autoCorrelateRun buffer sampleRate)
         = [\<lfloor>fl (sampleRate / 1000)\<rfloor> .. min \<lfloor>fl (sampleRate / 80)\<rfloor> (int (length buffer)) - 1]
     \<and> run_correlations (autoCorrelateRun buffer sampleRate) \<noteq> None)"
proof (intro conjI impI)
  assume s: "sumAbs (normalizeBuffer buffer) < 0.01"
  show "autoCorrelate buffer sampleRate = 0"
    by (simp add: autoCorrelate_def autoCorrelateRun_silent [OF s])
  show "run_searched (autoCorrelateRun buffer sampleRate) = []"
    by (simp add: autoCorrelateRun_silent [OF s])
  show "run_correlations (autoCorrelateRun buffer sampleRate) = None"
    by (simp add: autoCorrelateRun_silent [OF s])
  show "sum_list (map (\<lambda>b. \<bar>int (unat b) - 128\<bar>) buffer) \<le> 1"
    using s sumAbs_silent_iff [of buffer] by simp
  show "buffer = [] \<or> meanAbsAmplitude buffer < 0.01"
    using s mean_le_sum [of buffer] by (cases "buffer = []") simp_all
next
  assume l: "\<not> sumAbs (normalizeBuffer buffer) < 0.01"
  show "run_searched (autoCorrelateRun buffer sampleRate)
      = [\<lfloor>fl (sampleRate / 1000)\<rfloor> .. min \<lfloor>fl (sampleRate / 80)\<rfloor> (int (length buffer)) - 1]"
    by (rule autoCorrelateRun_loud(1) [OF l])
  show "run_correlations (autoCorrelateRun buffer sampleRate) \<noteq> None"
    by (simp add: autoCorrelateRun_loud(2) [OF l])
qed

theorem autoCorrelate_silence_witness:
  "sumAbs (normalizeBuffer [128, 129, 128, 128, 128, 128, 128, 128, 128, 128]) < 0.01
   \<and> autoCorrelate [128, 129, 128, 128, 128, 128, 128, 128, 128, 128] 8000 = 0
   \<and> run_searched (autoCorrelateRun [128, 129, 128, 128, 128, 128, 128, 128, 128, 128] 8000) = []
   \<and> \<not> sumAbs (normalizeBuffer [128, 130, 128, 128, 128, 128, 128, 128, 128, 128]) < 0.01
   \<and> run_searched (autoCorrelateRun [128, 130, 128, 128, 128, 128, 128, 128, 128, 128] 8000) = [8, 9]"
proof -
  have s: "sumAbs (normalizeBuffer [128, 129, 128, 128, 128, 128, 128, 128, 128, 128]) < 0.01"
    by (simp add: sumAbs_def normalizeBuffer_def)
  have l: "\<not> sumAbs (normalizeBuffer [128, 130, 128, 128, 128, 128, 128, 128, 128, 128]) < 0.01"
    by (simp add: sumAbs_def normalizeBuffer_def)
  have r: "[\<lfloor>fl ((8000::real) / 1000)\<rfloor> ..
            min \<lfloor>fl ((8000::real) / 80)\<rfloor>
              (int (length [128, 130, 128, 128, 128, 128, 128, 128, 128, 128 :: 8 word])) - 1]
         = [8, 9]"
    by (simp add: upto_rec1)
  from autoCorrelate_silence [of "[128, 129, 128, 128, 128, 128, 128, 128, 128, 128]" 8000]
    autoCorrelate_silence [of "[128, 130, 128, 128, 128, 128, 128, 128, 128, 128]" 8000] s l r
  show ?thesis by simp
qed

lemma foldl_add_const:
  fixes a k :: real
  assumes "\<And>i. i \<in> set is \<Longrightarrow> f i = k"
  shows "foldl (\<lambda>c i. c + f i) a is = a + real (length is) * k"
  using assms by (induction "is" arbitrary: a) (simp_all add: algebra_simps)

lemma correlationAt_replicate:
  "correlationAt (replicate n v) lag = real (n - lag) * (v * v)"
  unfolding correlationAt_def
  using foldl_add_const [of "[0 ..< n - lag]" "\<lambda>i. replicate n v ! i * replicate n v ! (i + lag)" "v * v" 0]
  by simp

lemma correlations_replicate_nth:
  assumes "lag < n"
  shows "correlations (replicate n v) ! lag = real (n - lag) * (v * v)"
  using assms by (simp add: correlations_def correlationAt_replicate)

lemma fold_searchStep_keep:
  assumes "\<And>lag. lag \<in> set lags \<Longrightarrow> \<not> (0 \<le> lag \<and> cs ! nat lag > m)"
  shows "fold (searchStep cs) lags (m, b, f, vs) = (m, b, f, vs @ lags)"
  using assms
proof (induction lags arbitrary: vs)
  case Nil
  show ?case by simp
next
  case (Cons lag lags)
  from Cons.prems [of lag] have "searchStep cs lag (m, b, f, vs) = (m, b, f, vs @ [lag])"
    by (simp add: searchStep_def)
  moreover have "fold (searchStep cs) lags (m, b, f, vs @ [lag]) = (m, b, f, (vs @ [lag]) @ lags)"
    using Cons.prems by (intro Cons.IH) simp
  ultimately show ?case by simp
qed

lemma normalizeBuffer_replicate:
  "normalizeBuffer (replicate n b) = replicate n ((real (unat b) - 128) / 128)"
  by (simp add: normalizeBuffer_def)

lemma search_constant_buffer:
  "fold (searchStep (correlations (replicate 1024 (1 / 128)))) [44 .. 550] (0, 0, False, [])
     = (245 / 4096, 44, True, [44 .. 550])"
proof -
  let ?cs = "correlations (replicate 1024 (1 / 128 :: real))"
  have c: "?cs ! nat lag = (1024 - real_of_int lag) / 16384" if "0 \<le> lag" "lag < 1024" for lag
  proof -
    from that have "nat lag < 1024" by simp
    from correlations_replicate_nth [OF this, of "1 / 128"] that show ?thesis
      by (simp add: of_nat_diff)
  qed
  have first: "searchStep ?cs 44 (0, 0, False, []) = (245 / 4096, 44, True, [44])"
    using c [of 44] by (simp add: searchStep_def)
  have rest: "fold (searchStep ?cs) [44 + 1 .. 550] (245 / 4096, 44, True, [44])
      = (245 / 4096, 44, True, [44] @ [44 + 1 .. 550])"
  proof (rule fold_searchStep_keep)
    fix lag :: int assume "lag \<in> set [44 + 1 .. 550]"
    then have l: "45 \<le> lag" "lag \<le> 550" by (simp_all only: set_upto atLeastAtMost_iff) simp_all
    then have "?cs ! nat lag = (1024 - real_of_int lag) / 16384" by (intro c) simp_all
    moreover have "(1024 - real_of_int lag) / 16384 \<le> 245 / 4096" using l by simp
    ultimately show "\<not> (0 \<le> lag \<and> ?cs ! nat lag > 245 / 4096)" by simp
  qed
  have u: "[44 .. 550] = 44 # [44 + 1 .. (550::int)]" by (rule upto_rec1) simp
  then have "fold (searchStep ?cs) [44 .. 550] (0, 0, False, [])
      = fold (searchStep ?cs) [44 + 1 .. 550] (searchStep ?cs 44 (0, 0, False, []))"
    by (simp only: fold.simps o_apply)
  also have "\<dots> = (245 / 4096, 44, True, [44] @ [44 + 1 .. 550])" by (simp only: first rest)
  also have "[44] @ [44 + 1 .. 550] = [44 .. (550::int)]" by (simp only: u append.simps)
  finally show ?thesis .
qed

text \<open>
  Claim C4 as stated fails: 1024 samples of value 129 at 44100 Hz have the mean
  absolute amplitude \<open>1 / 128 < 0.01\<close>, but their sum is 8, the lags from 44 to 550 are
  searched and the estimate is \<open>44100 / 44\<close> Hz, in binary64 1002.2727272727273.
\<close>

theorem autoCorrelate_mean_counterexample:
  "meanAbsAmplitude (replicate 1024 129) < 0.01
   \<and> autoCorrelate (replicate 1024 129) 44100 = 4408042071356509 / 2 ^ 42
   \<and> run_searched (autoCorrelateRun (replicate 1024 129) 44100) \<noteq> []
   \<and> hd (run_searched (autoCorrelateRun (replicate 1024 129) 44100)) = 44
   \<and> length (run_searched (autoCorrelateRun (replicate 1024 129) 44100)) = 507"
proof -
  let ?cs = "correlations (replicate 1024 (1 / 128 :: real))"
  have n: "normalizeBuffer (replicate 1024 129) = replicate 1024 (1 / 128)"
    by (simp add: normalizeBuffer_replicate)
  have s: "sumAbs (replicate 1024 (1 / 128)) = 8"
    by (simp add: sumAbs_sum_list sum_list_replicate)
  have m: "meanAbsAmplitude (replicate 1024 129) = 1 / 128"
    using s by (simp add: meanAbsAmplitude_def n sumAbs_sum_list)
  have "fl 44 \<le> fl (44100 / 1000)" "fl (44100 / 1000) \<le> fl (89 / 2)"
    by (rule fl_mono, simp)+
  moreover have "fl (89 / 2) = 89 / 2" using fl_exact [of "89 / 2" 89 "- 1"] by simp
  ultimately have "44 \<le> fl (44100 / 1000)" "fl (44100 / 1000) < 45" by simp_all
  then have f1: "\<lfloor>fl ((44100::real) / 1000)\<rfloor> = 44" by (simp add: floor_eq_iff)
  have "fl (2205 / 4) = 2205 / 4" using fl_exact [of "2205 / 4" 2205 "- 2"] by simp
  then have f2: "\<lfloor>fl ((44100::real) / 80)\<rfloor> = 551" by (simp add: floor_eq_iff)
  have q: "fl (44100 / of_int 44) = 4408042071356509 / 2 ^ 42"
    by (rule fl_eq_intro [where k = 9 and n = 8816084142713018]) (simp_all add: rne_def Let_def)
  have e: "min 551 (int (length ?cs)) - 1 = 550" by (simp add: correlations_def)
  have step: "fold (searchStep ?cs) [44 .. min 551 (int (length ?cs)) - 1] (0, 0, False, [])
      = (245 / 4096, 44, True, [44 .. 550])"
    by (simp only: e search_constant_buffer)
  have run: "autoCorrelateRun (replicate 1024 129) 44100
      = \<lparr>run_result = 4408042071356509 / 2 ^ 42, run_correlations = Some ?cs,
         run_searched = [44 .. 550]\<rparr>"
    unfolding autoCorrelateRun_def n Let_def s f1 f2 step prod.case q by simp
  have u: "[44 .. 550] = 44 # [44 + 1 .. (550::int)]" by (rule upto_rec1) simp
  have "run_searched (autoCorrelateRun (replicate 1024 129) 44100) = [44 .. 550]"
    by (simp only: run PitchRun.simps)
  then have rs: "run_searched (autoCorrelateRun (replicate 1024 129) 44100) = 44 # [44 + 1 .. 550]"
    by (simp only: u)
  have "length [44 .. (550::int)] = 507" by (simp only: length_upto)
  then have "length (44 # [44 + 1 .. (550::int)]) = 507" by (simp only: u)
  then have "run_searched (autoCorrelateRun (replicate 1024 129) 44100) \<noteq> []"
    "hd (run_searched (autoCorrelateRun (replicate 1024 129) 44100)) = 44"
    "length (run_searched (autoCorrelateRun (replicate 1024 129) 44100)) = 507"
    unfolding rs by (simp_all only: list.sel list.distinct not_False_eq_True)
  moreover have "autoCorrelate (replicate 1024 129) 44100 = 4408042071356509 / 2 ^ 42"
    by (simp add: autoCorrelate_def run)
  ultimately show ?thesis by (simp add: m)
qed

end
